theory Spec2Isabelle
  imports Complex_Main "HOL-Library.Word"
begin

unbundle bit_operations_syntax

section \<open>The Saleae Logic / FX2 driver: data model\<close>

text \<open>
  The driver is the second document of \<^verbatim>\<open>src/libsigrok/sigrok-proto.h\<close> (the C file that
  starts after the prototypes, with \<^verbatim>\<open>supported_fx2\<close>, \<^verbatim>\<open>configure_probes\<close>,
  \<^verbatim>\<open>set_samplerate\<close>, \<^verbatim>\<open>receive_transfer\<close> and the \<^verbatim>\<open>hw_*\<close> callbacks).
  Its headers \<^verbatim>\<open>saleae-logic.h\<close>, \<^verbatim>\<open>sigrok.h\<close> and \<^verbatim>\<open>sigrok-internal.h\<close> are not among
  the sources, so the macros they define are parameters of the model (record \<open>tunables\<close>)
  and the structs they declare are modelled from the fields the C code reads and writes.
\<close>

type_synonym byte = "8 word"

text \<open>
  The macros of \<^verbatim>\<open>saleae-logic.h\<close> that the code uses as numbers. They are parameters:
  every general theorem holds for each value of them.
\<close>

record tunables =
  NUM_TRIGGER_STAGES :: nat
  MAX_EMPTY_TRANSFERS :: int
  NUM_SIMUL_TRANSFERS :: nat
  MAX_RENUM_DELAY :: int

text \<open>
  Modelled from the spec: \<^verbatim>\<open>TRIGGER_FIRED\<close> is a macro of the missing \<^verbatim>\<open>saleae-logic.h\<close>;
  section 3 of the specification gives \<open>-1\<close> for the special value, and \<^verbatim>\<open>receive_transfer\<close>
  treats every \<^verbatim>\<open>trigger_stage >= 0\<close> as "still searching".
\<close>

definition TRIGGER_FIRED :: int where
  "TRIGGER_FIRED = - 1"

text \<open>
  Modelled from the spec: the status codes of the missing \<^verbatim>\<open>sigrok.h\<close>, by the names of
  section 6 of the specification.
\<close>

datatype sr_status = SR_OK | SR_ERR | SR_ERR_MALLOC | SR_ERR_ARG | SR_ERR_BUG | SR_ERR_SAMPLERATE

datatype dev_status = SR_ST_NOT_FOUND | SR_ST_INITIALIZING | SR_ST_INACTIVE | SR_ST_ACTIVE

record fx2_profile =
  orig_vid :: nat
  orig_pid :: nat
  fw_vid :: nat
  fw_pid :: nat
  vendor :: string
  model :: string
  model_version :: "string option"
  num_probes :: int

text \<open>A libusb device handle is identified by the bus position of the device it opens.\<close>

record usb_dev_inst =
  bus :: byte
  address :: byte
  devhdl :: "nat option"

text \<open>
  Modelled from the spec: \<^verbatim>\<open>struct context\<close> (here \<open>dev_context\<close>) is declared in the missing
  \<^verbatim>\<open>saleae-logic.h\<close>. The record has the fields that the driver reads and writes, which are
  those of section 3 of the specification. The masks, the values and the buffered samples
  are bytes, one bit per probe, as section 6 has one byte per sample. The three trigger
  arrays have \<^verbatim>\<open>NUM_TRIGGER_STAGES\<close> elements each; they are lists, and an indexed access
  outside the array is undefined behaviour, to which the model gives no result. \<open>fw_updated\<close> is the
  time stamp in milliseconds (\<^verbatim>\<open>GTV_TO_MSEC\<close>). The two \<^verbatim>\<open>uint64_t\<close> fields are natural
  numbers: the driver only stores and compares them.
\<close>

record dev_context =
  profile :: fx2_profile
  fw_updated :: int
  usb :: usb_dev_inst
  cur_samplerate :: nat
  limit_samples :: nat
  probe_mask :: byte
  trigger_mask :: "byte list"
  trigger_value :: "byte list"
  trigger_stage :: int
  trigger_buffer :: "byte list"
  session_data :: nat

text \<open>\<^verbatim>\<open>struct sr_dev_inst\<close>; \<open>priv\<close> is the pointer to the device's \<^verbatim>\<open>struct context\<close>.\<close>

record sr_dev_inst =
  index :: int
  status :: dev_status
  priv :: nat

record sr_datafeed_header =
  feed_version :: int
  starttime :: int
  header_samplerate :: nat
  num_logic_probes :: int

text \<open>
  A datafeed packet. \<open>SR_DF_LOGIC unitsize len data\<close> carries \<^verbatim>\<open>logic.unitsize\<close>,
  \<^verbatim>\<open>logic.length\<close> and the \<^verbatim>\<open>logic.length\<close> bytes that \<^verbatim>\<open>logic.data\<close> points to.
\<close>

datatype sr_datafeed_packet =
    SR_DF_HEADER sr_datafeed_header
  | SR_DF_LOGIC int int "byte list"
  | SR_DF_TRIGGER
  | SR_DF_END

text \<open>The calls into libusb and the event loop that change something outside the driver.\<close>

datatype usb_call =
    Free_transfer
  | Submit_transfer nat bool
  | Bulk_out "nat option" "byte list"
  | Claim_interface "nat option"
  | Release_interface nat
  | Close_handle nat
  | Source_add int

text \<open>
  The state of the process: the two function-static counters of \<^verbatim>\<open>receive_transfer\<close>, the
  globals \<^verbatim>\<open>new_saleae_logic_firmware\<close> and \<^verbatim>\<open>dev_insts\<close>, the store of contexts
  (addressed by the pointers held in \<open>priv\<close> and in a transfer's \<^verbatim>\<open>user_data\<close>), the packets
  handed to \<^verbatim>\<open>sr_session_send\<close> (with the session they went to, oldest first) and the calls
  made into libusb (oldest first).
\<close>

record world =
  num_samples :: int
  empty_transfer_count :: int
  new_saleae_logic_firmware :: bool
  dev_insts :: "sr_dev_inst list"
  contexts :: "nat \<Rightarrow> dev_context"
  sent :: "(nat \<times> sr_datafeed_packet) list"
  usb_log :: "usb_call list"

definition sr_session_send :: "nat \<Rightarrow> sr_datafeed_packet \<Rightarrow> world \<Rightarrow> world" where
  "sr_session_send sid p w = w\<lparr>sent := sent w @ [(sid, p)]\<rparr>"

definition usb_do :: "usb_call \<Rightarrow> world \<Rightarrow> world" where
  "usb_do c w = w\<lparr>usb_log := usb_log w @ [c]\<rparr>"

definition set_ctx :: "nat \<Rightarrow> dev_context \<Rightarrow> world \<Rightarrow> world" where
  "set_ctx p c w = w\<lparr>contexts := (contexts w)(p := c)\<rparr>"

section \<open>The acquisition engine\<close>

text \<open>
  A completed transfer as the callback sees it: \<open>buffer\<close> holds the \<^verbatim>\<open>actual_length\<close>
  bytes received, \<open>user_data\<close> points to the context. The two flags are the outcomes of
  the calls the callback makes: \<^verbatim>\<open>g_try_malloc(4096)\<close> and \<^verbatim>\<open>libusb_submit_transfer\<close>.
\<close>

record libusb_transfer =
  buffer :: "byte list"
  user_data :: nat
  malloc_ok :: bool
  submit_ok :: bool

text \<open>How the trigger loop of \<^verbatim>\<open>receive_transfer\<close> is left.\<close>

datatype loop_exit =
    Loop_end dev_context
  | Loop_break int dev_context
  | Loop_return dev_context

text \<open>
  The \<^verbatim>\<open>for (i = 0; i < cur_buflen; i++)\<close> loop, from index \<open>i\<close>. \<open>None\<close> is undefined
  behaviour: an index into the trigger arrays outside \<open>[0, NUM_TRIGGER_STAGES)\<close>.
  \<open>Loop_break off ctx\<close> is the \<^verbatim>\<open>break\<close> with \<^verbatim>\<open>trigger_offset = off\<close>; the two packets sent
  just before it are added by \<open>receive_transfer\<close>. \<open>Loop_return\<close> is the \<^verbatim>\<open>return\<close> that
  follows a match which does not complete the trigger.
\<close>

function trigger_loop :: "tunables \<Rightarrow> byte list \<Rightarrow> int \<Rightarrow> dev_context \<Rightarrow> loop_exit option" where
  "trigger_loop cfg cur_buf i ctx =
    (if \<not> i < int (length cur_buf) then Some (Loop_end ctx)
     else if i < 0 \<or> trigger_stage ctx < 0
           \<or> \<not> trigger_stage ctx < int (NUM_TRIGGER_STAGES cfg)
           \<or> length (trigger_mask ctx) \<noteq> NUM_TRIGGER_STAGES cfg
           \<or> length (trigger_value ctx) \<noteq> NUM_TRIGGER_STAGES cfg
           \<or> length (trigger_buffer ctx) \<noteq> NUM_TRIGGER_STAGES cfg then None
     else if (cur_buf ! nat i AND trigger_mask ctx ! nat (trigger_stage ctx))
             = trigger_value ctx ! nat (trigger_stage ctx) then
       (if trigger_stage ctx + 1 = int (NUM_TRIGGER_STAGES cfg)
           \<or> trigger_mask ctx ! nat (trigger_stage ctx + 1) = 0
        then Some (Loop_break (i + 1)
               (ctx\<lparr>trigger_buffer := (trigger_buffer ctx)[nat (trigger_stage ctx) := cur_buf ! nat i],
                    trigger_stage := trigger_stage ctx + 1\<rparr>))
        else Some (Loop_return
               (ctx\<lparr>trigger_buffer := (trigger_buffer ctx)[nat (trigger_stage ctx) := cur_buf ! nat i],
                    trigger_stage := trigger_stage ctx + 1\<rparr>)))
     else if trigger_stage ctx > 0 then
       trigger_loop cfg cur_buf
         ((if i - trigger_stage ctx < - 1 then - 1 else i - trigger_stage ctx) + 1)
         (ctx\<lparr>trigger_stage := 0\<rparr>)
     else trigger_loop cfg cur_buf (i + 1) ctx)"
  by pat_completeness auto
termination
  by (relation "measures [\<lambda>(cfg, cur_buf, i, ctx). if trigger_stage ctx > 0 then 1 else 0,
                           \<lambda>(cfg, cur_buf, i, ctx). nat (int (length cur_buf) - i)]") auto

declare trigger_loop.simps [simp del]

text \<open>
  \<^verbatim>\<open>receive_transfer(NULL)\<close>, the call made by \<^verbatim>\<open>hw_dev_acquisition_stop\<close>: it sets the kill
  switch \<^verbatim>\<open>num_samples = -1\<close> and returns at the next test, freeing nothing.
\<close>

definition receive_transfer_NULL :: "world \<Rightarrow> world" where
  "receive_transfer_NULL w = w\<lparr>num_samples := - 1\<rparr>"

definition hw_dev_acquisition_stop :: "int \<Rightarrow> nat \<Rightarrow> world \<Rightarrow> sr_status \<times> world" where
  "hw_dev_acquisition_stop dev_index session_dev_id w =
     (SR_OK, receive_transfer_NULL (sr_session_send session_dev_id SR_DF_END w))"

text \<open>
  The end of \<^verbatim>\<open>receive_transfer\<close>, from \<^verbatim>\<open>if (ctx->trigger_stage == TRIGGER_FIRED)\<close> on, for
  the context at \<open>p\<close> as the trigger loop left it. \<open>None\<close> is the signed overflow of
  \<^verbatim>\<open>num_samples += cur_buflen\<close>. The cast \<^verbatim>\<open>(unsigned int) num_samples\<close> is \<open>mod 2 ^ 32\<close>.
\<close>

definition send_transfer :: "byte list \<Rightarrow> int \<Rightarrow> nat \<Rightarrow> world \<Rightarrow> world option" where
  "send_transfer cur_buf trigger_offset p w =
    (let ctx = contexts w p in
     if trigger_stage ctx = TRIGGER_FIRED then
       let w1 = sr_session_send (session_data ctx)
                  (SR_DF_LOGIC 1 (int (length cur_buf) - trigger_offset)
                     (drop (nat trigger_offset) cur_buf)) w in
       if num_samples w1 + int (length cur_buf) > 2147483647 then None
       else
         let w2 = w1\<lparr>num_samples := num_samples w1 + int (length cur_buf)\<rparr> in
         if limit_samples ctx \<noteq> 0 \<and> num_samples w2 mod 2 ^ 32 > int (limit_samples ctx)
         then Some (snd (hw_dev_acquisition_stop (- 1) (session_data ctx) w2))
         else Some w2
     else Some w)"

text \<open>
  \<^verbatim>\<open>receive_transfer\<close>. \<open>None\<close> for the transfer is the \<^verbatim>\<open>NULL\<close> argument. A result \<open>None\<close>
  is undefined behaviour of the C code (an array index out of range, the signed overflow of
  \<^verbatim>\<open>num_samples\<close>). \<^verbatim>\<open>empty_transfer_count\<close> is an unbounded integer here: the code resets it
  or stops before it can pass \<^verbatim>\<open>MAX_EMPTY_TRANSFERS + 1\<close>. The log calls are left out.
\<close>

definition receive_transfer :: "tunables \<Rightarrow> libusb_transfer option \<Rightarrow> world \<Rightarrow> world option" where
  "receive_transfer cfg transfer w =
    (case transfer of
       None \<Rightarrow> Some (receive_transfer_NULL w)
     | Some t \<Rightarrow>
        if num_samples w = - 1 then Some (usb_do Free_transfer w)
        else if \<not> malloc_ok t then Some w
        else
          let cur_buf = buffer t;
              p = user_data t;
              w1 = usb_do (Submit_transfer 4096 (submit_ok t)) w
          in
          if length cur_buf = 0 then
            let w2 = w1\<lparr>empty_transfer_count := empty_transfer_count w1 + 1\<rparr> in
            if empty_transfer_count w2 > MAX_EMPTY_TRANSFERS cfg
            then Some (snd (hw_dev_acquisition_stop (- 1) (session_data (contexts w2 p)) w2))
            else Some w2
          else
            let w2 = w1\<lparr>empty_transfer_count := 0\<rparr>;
                ctx = contexts w2 p
            in
            if trigger_stage ctx \<ge> 0 then
              (case trigger_loop cfg cur_buf 0 ctx of
                 None \<Rightarrow> None
               | Some (Loop_return ctx1) \<Rightarrow> Some (set_ctx p ctx1 w2)
               | Some (Loop_break trigger_offset ctx1) \<Rightarrow>
                   let w3 = sr_session_send (session_data ctx1) SR_DF_TRIGGER w2;
                       w4 = sr_session_send (session_data ctx1)
                              (SR_DF_LOGIC 1 (trigger_stage ctx1)
                                 (take (nat (trigger_stage ctx1)) (trigger_buffer ctx1))) w3;
                       w5 = set_ctx p (ctx1\<lparr>trigger_stage := TRIGGER_FIRED\<rparr>) w4
                   in send_transfer cur_buf trigger_offset p w5
               | Some (Loop_end ctx1) \<Rightarrow> send_transfer cur_buf 0 p (set_ctx p ctx1 w2))
            else send_transfer cur_buf 0 p w2)"

section \<open>The rate encoder\<close>

text \<open>
  \<^verbatim>\<open>supported_samplerates\<close>, with its terminating zero (\<^verbatim>\<open>SR_KHZ\<close> and \<^verbatim>\<open>SR_MHZ\<close> multiply by
  a thousand and a million).
\<close>

definition supported_samplerates :: "nat list" where
  "supported_samplerates =
     [200000, 250000, 500000, 1000000, 2000000, 4000000, 8000000, 12000000, 16000000,
      24000000, 0]"

fun new_firmware_divider_value :: "nat \<Rightarrow> byte" where
  "new_firmware_divider_value samplerate =
    (if samplerate = 24000000 then 0xe0
     else if samplerate = 16000000 then 0xd5
     else if samplerate = 12000000 then 0xe2
     else if samplerate = 8000000 then 0xd4
     else if samplerate = 4000000 then 0xda
     else if samplerate = 2000000 then 0xe6
     else if samplerate = 1000000 then 0x8e
     else if samplerate = 500000 then 0xfe
     else if samplerate = 250000 then 0x9e
     else if samplerate = 200000 then 0x4e
     else 0)"

text \<open>
  The legacy branch computes in \<^verbatim>\<open>double\<close>:
  \<^verbatim>\<open>divider = (uint8_t) (48 / (samplerate / 1000000.0)) - 1\<close>.
  A positive \<^verbatim>\<open>double\<close> is a pair \<open>(m, e)\<close> that stands for \<open>m * 2 ^ e\<close>. \<open>double_quot a b\<close>
  is the quotient of two positive integers as IEEE 754 gives it in binary64: the exact
  quotient, scaled so that its integer part has 53 bits, rounded to the nearest integer,
  ties to even (all values that occur here are in the normal range). \<open>double_div\<close> is the
  division of two such values, \<open>double_of_nat\<close> the conversion of the \<^verbatim>\<open>uint64_t\<close>.
\<close>

fun bit_length :: "nat \<Rightarrow> nat" where
  "bit_length n = (if n = 0 then 0 else Suc (bit_length (n div 2)))"

declare bit_length.simps [simp del]

definition round_half_even :: "nat \<Rightarrow> nat \<Rightarrow> nat" where
  "round_half_even n d =
    (let q = n div d; r = n mod d in
     if 2 * r < d then q else if 2 * r > d then q + 1 else if even q then q else q + 1)"

definition double_quot :: "nat \<Rightarrow> nat \<Rightarrow> nat \<times> int" where
  "double_quot a b =
    (let k = int (bit_length a) - int (bit_length b);
         l = (if (if k \<ge> 0 then b * 2 ^ nat k \<le> a else b \<le> a * 2 ^ nat (- k)) then k else k - 1);
         e = l - 52
     in (if e \<ge> 0 then round_half_even a (b * 2 ^ nat e)
         else round_half_even (a * 2 ^ nat (- e)) b, e))"

definition double_of_nat :: "nat \<Rightarrow> nat \<times> int" where
  "double_of_nat n = double_quot n 1"

definition double_div :: "nat \<times> int \<Rightarrow> nat \<times> int \<Rightarrow> nat \<times> int" where
  "double_div x y =
    (case x of (m1, e1) \<Rightarrow> case y of (m2, e2) \<Rightarrow>
       if e1 \<ge> e2 then double_quot (m1 * 2 ^ nat (e1 - e2)) m2
       else double_quot m1 (m2 * 2 ^ nat (e2 - e1)))"

definition double_trunc :: "nat \<times> int \<Rightarrow> nat" where
  "double_trunc x = (case x of (m, e) \<Rightarrow> if e \<ge> 0 then m * 2 ^ nat e else m div 2 ^ nat (- e))"

text \<open>
  The conversion of the quotient to \<^verbatim>\<open>uint8_t\<close> truncates; it is undefined (\<open>None\<close>) when
  the truncated value does not fit. A rate of zero, which divides by zero, is undefined for
  the same reason. The subtraction is done in \<^verbatim>\<open>int\<close> and the result stored in the
  \<^verbatim>\<open>uint8_t divider\<close>.
\<close>

definition legacy_divider_value :: "nat \<Rightarrow> byte option" where
  "legacy_divider_value samplerate =
    (if samplerate = 0 then None
     else
       let rate_mhz = double_div (double_of_nat samplerate) (double_of_nat 1000000);
           d = double_trunc (double_div (double_of_nat 48) rate_mhz)
       in if d \<ge> 256 then None else Some (word_of_int (int d - 1)))"

text \<open>
  The search loop of \<^verbatim>\<open>set_samplerate\<close> over the zero-terminated array: the result is the
  element \<^verbatim>\<open>supported_samplerates[i]\<close> at which the loop stops. The empty list stands for
  reading past the terminator, which the loop never does.
\<close>

fun samplerate_scan :: "nat list \<Rightarrow> nat \<Rightarrow> nat" where
  "samplerate_scan [] samplerate = 0"
| "samplerate_scan (r # rs) samplerate =
    (if r = 0 then r else if r = samplerate then r else samplerate_scan rs samplerate)"

text \<open>
  \<^verbatim>\<open>set_samplerate\<close> for the device instance at position \<open>k\<close> of \<^verbatim>\<open>dev_insts\<close>. \<open>bulk_ok\<close> is
  the outcome of \<^verbatim>\<open>libusb_bulk_transfer\<close>.
\<close>

definition set_samplerate :: "bool \<Rightarrow> sr_dev_inst \<Rightarrow> nat \<Rightarrow> world \<Rightarrow> (sr_status \<times> world) option" where
  "set_samplerate bulk_ok sdi samplerate w =
    (let ctx = contexts w (priv sdi) in
     if samplerate_scan supported_samplerates samplerate = 0 then Some (SR_ERR_SAMPLERATE, w)
     else
       case (if new_saleae_logic_firmware w then Some (new_firmware_divider_value samplerate)
             else legacy_divider_value samplerate) of
         None \<Rightarrow> None
       | Some divider \<Rightarrow>
           let buf = [if new_saleae_logic_firmware w then 0xd5 else 0x01, divider];
               w1 = usb_do (Bulk_out (devhdl (usb ctx)) buf) w
           in if \<not> bulk_ok then Some (SR_ERR, w1)
              else Some (SR_OK, set_ctx (priv sdi) (ctx\<lparr>cur_samplerate := samplerate\<rparr>) w1))"

section \<open>Probe and trigger configuration\<close>

record sr_probe =
  probe_index :: int
  enabled :: bool
  trigger :: "string option"

datatype trigger_array = Trigger_mask | Trigger_value

text \<open>
  What C leaves undefined in \<^verbatim>\<open>configure_probes\<close>: a write to an element that one of the
  two arrays does not have (the array and the index), and the shift
  \<^verbatim>\<open>1 << (probe->index - 1)\<close> of an \<^verbatim>\<open>int\<close> by a negative count or by 31 and more (the
  count). A run that meets one of them has no result: the model stops there.
\<close>

datatype undefined_behaviour = Write_past_end trigger_array nat | Shift_out_of_range int

text \<open>
  \<^verbatim>\<open>a[stage] |= probe_bit\<close> on an array of \<^verbatim>\<open>NUM_TRIGGER_STAGES\<close> elements: \<open>None\<close> when the
  index is not below the number of elements.
\<close>

definition array_or :: "byte list \<Rightarrow> nat \<Rightarrow> byte \<Rightarrow> byte list option" where
  "array_or a i v = (if i < length a then Some (a[i := a ! i OR v]) else None)"

text \<open>
  The inner loop \<^verbatim>\<open>for (tc = probe->trigger; *tc; tc++)\<close>, statement by statement: the write
  to \<^verbatim>\<open>trigger_mask[stage]\<close>, for the character \<^verbatim>\<open>'1'\<close> the write to \<^verbatim>\<open>trigger_value[stage]\<close>,
  the increment, and only then the test \<^verbatim>\<open>stage > NUM_TRIGGER_STAGES\<close>. The result is:
  whether the loop left through \<^verbatim>\<open>return SR_ERR\<close>, the value of \<^verbatim>\<open>stage\<close>, and the context.
\<close>

fun trigger_chars ::
  "tunables \<Rightarrow> byte \<Rightarrow> string \<Rightarrow> nat \<Rightarrow> dev_context
     \<Rightarrow> undefined_behaviour + (bool \<times> nat \<times> dev_context)" where
  "trigger_chars cfg probe_bit [] stage ctx = Inr (False, stage, ctx)"
| "trigger_chars cfg probe_bit (tc # rest) stage ctx =
    (case array_or (trigger_mask ctx) stage probe_bit of
       None \<Rightarrow> Inl (Write_past_end Trigger_mask stage)
     | Some m \<Rightarrow>
        (case (if tc = CHR ''1'' then array_or (trigger_value ctx) stage probe_bit
               else Some (trigger_value ctx)) of
           None \<Rightarrow> Inl (Write_past_end Trigger_value stage)
         | Some v \<Rightarrow>
            if stage + 1 > NUM_TRIGGER_STAGES cfg
            then Inr (True, stage + 1, ctx\<lparr>trigger_mask := m, trigger_value := v\<rparr>)
            else trigger_chars cfg probe_bit rest (stage + 1)
                   (ctx\<lparr>trigger_mask := m, trigger_value := v\<rparr>)))"

text \<open>
  The outer loop over the probe list; \<open>stage\<close> is the C variable (\<open>-1\<close> until a probe with
  a trigger string is met).
\<close>

fun probes_loop ::
  "tunables \<Rightarrow> sr_probe list \<Rightarrow> int \<Rightarrow> dev_context
     \<Rightarrow> undefined_behaviour + (bool \<times> int \<times> dev_context)" where
  "probes_loop cfg [] stage ctx = Inr (False, stage, ctx)"
| "probes_loop cfg (probe # l) stage ctx =
    (if \<not> enabled probe then probes_loop cfg l stage ctx
     else if probe_index probe - 1 < 0 \<or> probe_index probe - 1 \<ge> 31
     then Inl (Shift_out_of_range (probe_index probe - 1))
     else
       let probe_bit = (push_bit (nat (probe_index probe - 1)) 1 :: int);
           ctx1 = ctx\<lparr>probe_mask := probe_mask ctx OR word_of_int probe_bit\<rparr>
       in case trigger probe of
            None \<Rightarrow> probes_loop cfg l stage ctx1
          | Some tcs \<Rightarrow>
              (case trigger_chars cfg (word_of_int probe_bit) tcs 0 ctx1 of
                 Inl u \<Rightarrow> Inl u
               | Inr (True, stage1, ctx2) \<Rightarrow> Inr (True, int stage1, ctx2)
               | Inr (False, stage1, ctx2) \<Rightarrow> probes_loop cfg l (int stage1) ctx2))"

text \<open>
  \<^verbatim>\<open>configure_probes\<close>: the status returned and the context as the function leaves it. The
  first loop clears the \<^verbatim>\<open>NUM_TRIGGER_STAGES\<close> elements of the two arrays.
\<close>

definition configure_probes ::
  "tunables \<Rightarrow> dev_context \<Rightarrow> sr_probe list \<Rightarrow> undefined_behaviour + (sr_status \<times> dev_context)" where
  "configure_probes cfg ctx probes =
    (let ctx0 = ctx\<lparr>probe_mask := 0,
                    trigger_mask := replicate (NUM_TRIGGER_STAGES cfg) 0,
                    trigger_value := replicate (NUM_TRIGGER_STAGES cfg) 0\<rparr>
     in case probes_loop cfg probes (- 1) ctx0 of
          Inl u \<Rightarrow> Inl u
        | Inr (True, stage, ctx1) \<Rightarrow> Inr (SR_ERR, ctx1)
        | Inr (False, stage, ctx1) \<Rightarrow>
            Inr (SR_OK, ctx1\<lparr>trigger_stage := (if stage = - 1 then TRIGGER_FIRED else 0)\<rparr>))"

section \<open>The device registry\<close>

text \<open>
  Modelled from the spec: \<^verbatim>\<open>sr_dev_inst_get\<close> belongs to the missing generic registry
  (section 1 lists it as an external collaborator; section 7 says that an index that is
  not registered makes the caller return \<^verbatim>\<open>ERR\<close>). It returns the first instance whose
  \<open>index\<close> is the one asked for; the pointer it returns is the position in \<^verbatim>\<open>dev_insts\<close>.
\<close>

fun sr_dev_inst_get :: "sr_dev_inst list \<Rightarrow> int \<Rightarrow> nat option" where
  "sr_dev_inst_get [] dev_index = None"
| "sr_dev_inst_get (sdi # l) dev_index =
    (if index sdi = dev_index then Some 0 else map_option Suc (sr_dev_inst_get l dev_index))"

text \<open>
  The capability and the value behind the \<^verbatim>\<open>void *\<close> of \<^verbatim>\<open>hw_dev_config_set\<close>, together.
  The call has no result (\<open>None\<close>) when \<^verbatim>\<open>set_samplerate\<close> or \<^verbatim>\<open>configure_probes\<close> meets
  undefined behaviour.
\<close>

datatype hwcap_value =
    SR_HWCAP_SAMPLERATE nat
  | SR_HWCAP_PROBECONFIG "sr_probe list"
  | SR_HWCAP_LIMIT_SAMPLES nat
  | SR_HWCAP_other int

definition hw_dev_config_set ::
  "tunables \<Rightarrow> bool \<Rightarrow> int \<Rightarrow> hwcap_value \<Rightarrow> world \<Rightarrow> (sr_status \<times> world) option" where
  "hw_dev_config_set cfg bulk_ok dev_index hv w =
    (case sr_dev_inst_get (dev_insts w) dev_index of
       None \<Rightarrow> Some (SR_ERR, w)
     | Some k \<Rightarrow>
        let sdi = dev_insts w ! k; ctx = contexts w (priv sdi) in
        case hv of
          SR_HWCAP_SAMPLERATE v \<Rightarrow> set_samplerate bulk_ok sdi v w
        | SR_HWCAP_PROBECONFIG probes \<Rightarrow>
            (case configure_probes cfg ctx probes of
               Inl u \<Rightarrow> None
             | Inr (ret, ctx1) \<Rightarrow> Some (ret, set_ctx (priv sdi) ctx1 w))
        | SR_HWCAP_LIMIT_SAMPLES v \<Rightarrow>
            Some (SR_OK, set_ctx (priv sdi) (ctx\<lparr>limit_samples := v\<rparr>) w)
        | SR_HWCAP_other c \<Rightarrow> Some (SR_ERR, w))"

text \<open>
  A device on the bus as libusb shows it: its descriptor (\<open>None\<close> when
  \<^verbatim>\<open>libusb_get_device_descriptor\<close> fails, else \<^verbatim>\<open>idVendor\<close> and \<^verbatim>\<open>idProduct\<close>), its bus number
  and address, and whether \<^verbatim>\<open>libusb_open\<close> succeeds on it.
\<close>

record libusb_device =
  descriptor :: "(nat \<times> nat) option"
  bus_number :: byte
  device_address :: byte
  open_ok :: bool

text \<open>
  The scan of \<^verbatim>\<open>sl_open_dev\<close> over the device list, from position \<open>i\<close>: the device at which
  the loop reaches \<^verbatim>\<open>libusb_open\<close>, if any.
\<close>

fun sl_scan ::
  "dev_status \<Rightarrow> int \<Rightarrow> dev_context \<Rightarrow> libusb_device list \<Rightarrow> nat \<Rightarrow> int
     \<Rightarrow> (nat \<times> libusb_device) option" where
  "sl_scan st dev_index ctx [] i skip = None"
| "sl_scan st dev_index ctx (d # ds) i skip =
    (case descriptor d of
       None \<Rightarrow> sl_scan st dev_index ctx ds (i + 1) skip
     | Some (idVendor, idProduct) \<Rightarrow>
        if idVendor \<noteq> fw_vid (profile ctx) \<or> idProduct \<noteq> fw_pid (profile ctx)
        then sl_scan st dev_index ctx ds (i + 1) skip
        else if st = SR_ST_INITIALIZING then
          (if skip \<noteq> dev_index then sl_scan st dev_index ctx ds (i + 1) (skip + 1)
           else Some (i, d))
        else if st = SR_ST_INACTIVE then
          (if bus_number d \<noteq> bus (usb ctx) \<or> device_address d \<noteq> address (usb ctx)
           then sl_scan st dev_index ctx ds (i + 1) skip
           else Some (i, d))
        else Some (i, d))"

definition sl_open_dev :: "libusb_device list \<Rightarrow> int \<Rightarrow> world \<Rightarrow> sr_status \<times> world" where
  "sl_open_dev devlist dev_index w =
    (case sr_dev_inst_get (dev_insts w) dev_index of
       None \<Rightarrow> (SR_ERR, w)
     | Some k \<Rightarrow>
        let sdi = dev_insts w ! k; ctx = contexts w (priv sdi) in
        if status sdi = SR_ST_ACTIVE then (SR_ERR, w)
        else
          case sl_scan (status sdi) dev_index ctx devlist 0 0 of
            None \<Rightarrow> (SR_ERR, w)
          | Some (i, d) \<Rightarrow>
              if open_ok d then
                let u1 = (usb ctx)\<lparr>devhdl := Some i\<rparr>;
                    u2 = (if address u1 = 0xff then u1\<lparr>address := device_address d\<rparr> else u1)
                in (SR_OK,
                    (set_ctx (priv sdi) (ctx\<lparr>usb := u2\<rparr>) w)
                      \<lparr>dev_insts := (dev_insts w)[k := sdi\<lparr>status := SR_ST_ACTIVE\<rparr>]\<rparr>)
              else (SR_ERR, w))"

text \<open>
  What \<^verbatim>\<open>hw_dev_open\<close> meets outside the driver: the bus as \<^verbatim>\<open>libusb_get_device_list\<close>
  shows it when no firmware was uploaded; for the wait after an upload, one entry per
  round of the loop, with the bus at that round and the clock (in milliseconds) read after
  the sleep that follows a failed round; the outcomes of \<^verbatim>\<open>libusb_claim_interface\<close> and of
  the bulk transfer that sets the default rate.
\<close>

record open_env =
  devlist :: "libusb_device list"
  rounds :: "(libusb_device list \<times> int) list"
  claim_ok :: bool
  rate_bulk_ok :: bool

text \<open>
  The loop \<^verbatim>\<open>while (timediff < MAX_RENUM_DELAY)\<close> for the context at \<open>p\<close>; \<open>err\<close> is the C
  variable, \<open>SR_OK\<close> at the start as \<^verbatim>\<open>err = 0\<close>. \<open>None\<close>: the rounds that were given ran
  out before the loop ended.
\<close>

fun renum_loop ::
  "tunables \<Rightarrow> int \<Rightarrow> nat \<Rightarrow> (libusb_device list \<times> int) list \<Rightarrow> sr_status \<Rightarrow> int \<Rightarrow> world
     \<Rightarrow> (sr_status \<times> world) option" where
  "renum_loop cfg dev_index p [] err timediff w =
    (if timediff < MAX_RENUM_DELAY cfg then None else Some (err, w))"
| "renum_loop cfg dev_index p ((dl, cur_time) # rest) err timediff w =
    (if timediff < MAX_RENUM_DELAY cfg then
       (case sl_open_dev dl dev_index w of
          (err1, w1) \<Rightarrow>
            if err1 = SR_OK then Some (err1, w1)
            else renum_loop cfg dev_index p rest err1
                   (cur_time - fw_updated (contexts w1 p)) w1)
     else Some (err, w))"

definition hw_dev_open :: "tunables \<Rightarrow> open_env \<Rightarrow> int \<Rightarrow> world \<Rightarrow> (sr_status \<times> world) option" where
  "hw_dev_open cfg env dev_index w =
    (case sr_dev_inst_get (dev_insts w) dev_index of
       None \<Rightarrow> Some (SR_ERR, w)
     | Some k \<Rightarrow>
        let sdi = dev_insts w ! k; ctx = contexts w (priv sdi) in
        case (if fw_updated ctx > 0 then renum_loop cfg dev_index (priv sdi) (rounds env) SR_OK 0 w
              else Some (sl_open_dev (devlist env) dev_index w)) of
          None \<Rightarrow> None
        | Some (err, w1) \<Rightarrow>
            if err \<noteq> SR_OK then Some (SR_ERR, w1)
            else
              let ctx1 = contexts w1 (priv sdi);
                  w2 = usb_do (Claim_interface (devhdl (usb ctx1))) w1
              in if \<not> claim_ok env then Some (SR_ERR, w2)
                 else if cur_samplerate ctx1 = 0 then
                   (case hw_dev_config_set cfg (rate_bulk_ok env) dev_index
                           (SR_HWCAP_SAMPLERATE (supported_samplerates ! 0)) w2 of
                      None \<Rightarrow> None
                    | Some (ret, w3) \<Rightarrow> if ret = SR_ERR then Some (SR_ERR, w3) else Some (SR_OK, w3))
                 else Some (SR_OK, w2))"

text \<open>\<^verbatim>\<open>close_dev\<close> for the instance at position \<open>k\<close> of \<^verbatim>\<open>dev_insts\<close>.\<close>

definition close_dev :: "nat \<Rightarrow> world \<Rightarrow> world" where
  "close_dev k w =
    (let sdi = dev_insts w ! k; ctx = contexts w (priv sdi) in
     case devhdl (usb ctx) of
       None \<Rightarrow> w
     | Some h \<Rightarrow>
        (set_ctx (priv sdi) (ctx\<lparr>usb := (usb ctx)\<lparr>devhdl := None\<rparr>\<rparr>)
           (usb_do (Close_handle h) (usb_do (Release_interface h) w)))
          \<lparr>dev_insts := (dev_insts w)[k := sdi\<lparr>status := SR_ST_INACTIVE\<rparr>]\<rparr>)"

definition hw_dev_close :: "int \<Rightarrow> world \<Rightarrow> sr_status \<times> world" where
  "hw_dev_close dev_index w =
    (case sr_dev_inst_get (dev_insts w) dev_index of
       None \<Rightarrow> (SR_ERR, w)
     | Some k \<Rightarrow> (SR_OK, close_dev k w))"

section \<open>Starting an acquisition; the calls a process makes\<close>

datatype xfer_outcome = Buf_malloc_failed | Submit_failed | Submitted

text \<open>
  What \<^verbatim>\<open>hw_dev_acquisition_start\<close> meets outside the driver: the outcomes of its two
  \<^verbatim>\<open>g_try_malloc\<close> calls, of the buffer allocation and submission of transfer \<open>i\<close>, the
  descriptors that \<^verbatim>\<open>libusb_get_pollfds\<close> returns, and the clock.
\<close>

record start_env =
  packet_malloc_ok :: bool
  header_malloc_ok :: bool
  xfers :: "nat \<Rightarrow> xfer_outcome"
  pollfds :: "int list"
  now :: int

text \<open>The loop that submits the pool: \<open>n\<close> transfers are left, \<open>i\<close> is the loop index.\<close>

fun submit_loop :: "(nat \<Rightarrow> xfer_outcome) \<Rightarrow> nat \<Rightarrow> nat \<Rightarrow> nat \<Rightarrow> world \<Rightarrow> sr_status \<times> world" where
  "submit_loop out 0 i sz w = (SR_OK, w)"
| "submit_loop out (Suc n) i sz w =
    (case out i of
       Buf_malloc_failed \<Rightarrow> (SR_ERR_MALLOC, w)
     | Submit_failed \<Rightarrow> (SR_ERR, usb_do Free_transfer (usb_do (Submit_transfer sz False) w))
     | Submitted \<Rightarrow> submit_loop out n (i + 1) 4096 (usb_do (Submit_transfer sz True) w))"

definition hw_dev_acquisition_start ::
  "tunables \<Rightarrow> start_env \<Rightarrow> int \<Rightarrow> nat \<Rightarrow> world \<Rightarrow> sr_status \<times> world" where
  "hw_dev_acquisition_start cfg env dev_index sd w =
    (case sr_dev_inst_get (dev_insts w) dev_index of
       None \<Rightarrow> (SR_ERR, w)
     | Some k \<Rightarrow>
        let p = priv (dev_insts w ! k);
            ctx = (contexts w p)\<lparr>session_data := sd\<rparr>;
            w1 = set_ctx p ctx w
        in if \<not> packet_malloc_ok env then (SR_ERR_MALLOC, w1)
           else if \<not> header_malloc_ok env then (SR_ERR_MALLOC, w1)
           else
             case submit_loop (xfers env) (NUM_SIMUL_TRANSFERS cfg) 0 2048 w1 of
               (ret, w2) \<Rightarrow>
                 if ret \<noteq> SR_OK then (ret, w2)
                 else
                   let w3 = fold (\<lambda>fd. usb_do (Source_add fd)) (pollfds env) w2;
                       header = \<lparr>feed_version = 1, starttime = now env,
                                 header_samplerate = cur_samplerate ctx,
                                 num_logic_probes = num_probes (profile ctx)\<rparr>
                   in (SR_OK, sr_session_send sd (SR_DF_HEADER header) w3))"

text \<open>
  One call into the driver: an entry of \<^verbatim>\<open>saleae_logic_driver_info\<close> called by the
  frontend, or the completion callback called by libusb. \<open>step\<close> is its effect on the
  process; \<open>None\<close> is undefined behaviour, or an environment that ran out.
\<close>

datatype driver_call =
    Dev_open open_env int
  | Dev_close int
  | Dev_config_set bool int hwcap_value
  | Acquisition_start start_env int nat
  | Acquisition_stop int nat
  | Transfer_done libusb_transfer

fun step :: "tunables \<Rightarrow> driver_call \<Rightarrow> world \<Rightarrow> world option" where
  "step cfg (Dev_open env dev_index) w = map_option snd (hw_dev_open cfg env dev_index w)"
| "step cfg (Dev_close dev_index) w = Some (snd (hw_dev_close dev_index w))"
| "step cfg (Dev_config_set bulk_ok dev_index hv) w =
     map_option snd (hw_dev_config_set cfg bulk_ok dev_index hv w)"
| "step cfg (Acquisition_start env dev_index sd) w =
     Some (snd (hw_dev_acquisition_start cfg env dev_index sd w))"
| "step cfg (Acquisition_stop dev_index sd) w = Some (snd (hw_dev_acquisition_stop dev_index sd w))"
| "step cfg (Transfer_done t) w = receive_transfer cfg (Some t) w"

fun run :: "tunables \<Rightarrow> driver_call list \<Rightarrow> world \<Rightarrow> world option" where
  "run cfg [] w = Some w"
| "run cfg (c # cs) w = (case step cfg c w of None \<Rightarrow> None | Some w1 \<Rightarrow> run cfg cs w1)"

text \<open>The completions of a list of transfers, in order.\<close>

fun completions :: "tunables \<Rightarrow> libusb_transfer list \<Rightarrow> world \<Rightarrow> world option" where
  "completions cfg [] w = Some w"
| "completions cfg (t # ts) w =
    (case receive_transfer cfg (Some t) w of None \<Rightarrow> None | Some w1 \<Rightarrow> completions cfg ts w1)"

text \<open>The packets of a trace without the sessions, and the bytes its LOGIC packets announce.\<close>

definition packets :: "(nat \<times> sr_datafeed_packet) list \<Rightarrow> sr_datafeed_packet list" where
  "packets tr = map snd tr"

fun logic_length :: "sr_datafeed_packet \<Rightarrow> int" where
  "logic_length (SR_DF_LOGIC unitsize len d) = len"
| "logic_length p = 0"

definition logic_bytes :: "(nat \<times> sr_datafeed_packet) list \<Rightarrow> int" where
  "logic_bytes tr = sum_list (map (logic_length \<circ> snd) tr)"

fun is_logic :: "sr_datafeed_packet \<Rightarrow> bool" where
  "is_logic (SR_DF_LOGIC unitsize len d) = True"
| "is_logic p = False"

text \<open>
  A context whose trigger arrays have their declared size and whose stage, while the
  matcher searches, indexes them.
\<close>

definition context_ok :: "tunables \<Rightarrow> dev_context \<Rightarrow> bool" where
  "context_ok cfg ctx \<longleftrightarrow>
     length (trigger_mask ctx) = NUM_TRIGGER_STAGES cfg \<and>
     length (trigger_value ctx) = NUM_TRIGGER_STAGES cfg \<and>
     length (trigger_buffer ctx) = NUM_TRIGGER_STAGES cfg \<and>
     trigger_stage ctx < int (NUM_TRIGGER_STAGES cfg)"

text \<open>What the trigger loop guarantees about the way it is left, for a context that is in order.\<close>

definition loop_post :: "tunables \<Rightarrow> byte list \<Rightarrow> dev_context \<Rightarrow> loop_exit \<Rightarrow> bool" where
  "loop_post cfg cur_buf ctx r =
     (case r of
        Loop_end c \<Rightarrow> context_ok cfg c \<and> 0 \<le> trigger_stage c
          \<and> session_data c = session_data ctx \<and> limit_samples c = limit_samples ctx
      | Loop_break off c \<Rightarrow> 0 < off \<and> off \<le> int (length cur_buf)
          \<and> 0 < trigger_stage c \<and> trigger_stage c \<le> int (NUM_TRIGGER_STAGES cfg)
          \<and> context_ok cfg (c\<lparr>trigger_stage := TRIGGER_FIRED\<rparr>)
          \<and> session_data c = session_data ctx \<and> limit_samples c = limit_samples ctx
      | Loop_return c \<Rightarrow> context_ok cfg c \<and> 0 \<le> trigger_stage c
          \<and> session_data c = session_data ctx \<and> limit_samples c = limit_samples ctx)"

text \<open>
  The invariant of an acquisition on the context at \<open>p\<close> whose trace held \<open>base\<close> LOGIC
  bytes when it began: how the bytes sent since then relate to \<^verbatim>\<open>num_samples\<close>.
\<close>

definition acq_inv :: "tunables \<Rightarrow> nat \<Rightarrow> int \<Rightarrow> world \<Rightarrow> bool" where
  "acq_inv cfg p base w =
    (let ctx = contexts w p;
         L = int (limit_samples ctx);
         S = logic_bytes (sent w) - base;
         N = int (NUM_TRIGGER_STAGES cfg)
     in context_ok cfg ctx \<and>
        (if num_samples w = - 1 then S \<le> L + 4096 + N - 1
         else 0 \<le> num_samples w \<and> num_samples w \<le> L \<and>
              (if 0 \<le> trigger_stage ctx then S \<le> num_samples w
               else S \<le> num_samples w + N - 1)))"

text \<open>The LOGIC packets of a trace, in order.\<close>

definition logic_packets :: "(nat \<times> sr_datafeed_packet) list \<Rightarrow> sr_datafeed_packet list" where
  "logic_packets tr = filter is_logic (packets tr)"

text \<open>
  The process after \<^verbatim>\<open>sl_open_dev\<close> has opened, for the instance at position \<open>k\<close>, the
  device at bus position \<open>j\<close> whose address is \<open>a\<close>.
\<close>

definition opened :: "nat \<Rightarrow> nat \<Rightarrow> byte \<Rightarrow> world \<Rightarrow> world" where
  "opened k j a w =
    (let sdi = dev_insts w ! k; ctx = contexts w (priv sdi);
         u1 = (usb ctx)\<lparr>devhdl := Some j\<rparr>;
         u2 = (if address u1 = 0xff then u1\<lparr>address := a\<rparr> else u1)
     in (set_ctx (priv sdi) (ctx\<lparr>usb := u2\<rparr>) w)
          \<lparr>dev_insts := (dev_insts w)[k := sdi\<lparr>status := SR_ST_ACTIVE\<rparr>]\<rparr>)"

text \<open>The context at \<open>p\<close>, with the process as the last argument.\<close>

definition ctx_at :: "nat \<Rightarrow> world \<Rightarrow> dev_context" where
  "ctx_at p w = contexts w p"

definition status_at :: "nat \<Rightarrow> world \<Rightarrow> dev_status" where
  "status_at k w = status (dev_insts w ! k)"

section \<open>A device and its surroundings, for the scenarios\<close>

text \<open>
  Modelled from the spec: the values of the macros in the scenarios of section 8 (four
  trigger stages, \<^verbatim>\<open>MAX_EMPTY_TRANSFERS = 3\<close>); the specification does not fix the pool size
  and the renumeration delay, which no scenario depends on.
\<close>

definition scenario_tunables :: tunables where
  "scenario_tunables = \<lparr>NUM_TRIGGER_STAGES = 4, MAX_EMPTY_TRANSFERS = 3,
     NUM_SIMUL_TRANSFERS = 10, MAX_RENUM_DELAY = 3000\<rparr>"

text \<open>\<^verbatim>\<open>supported_fx2\<close>, without its terminating entry of zeros.\<close>

definition supported_fx2 :: "fx2_profile list" where
  "supported_fx2 =
    [\<lparr>orig_vid = 0x0925, orig_pid = 0x3881, fw_vid = 0x0925, fw_pid = 0x3881,
      vendor = ''Saleae'', model = ''Logic'', model_version = None, num_probes = 8\<rparr>,
     \<lparr>orig_vid = 0x04b4, orig_pid = 0x8613, fw_vid = 0x0925, fw_pid = 0x3881,
      vendor = ''Cypress'', model = ''FX2'', model_version = None, num_probes = 16\<rparr>]"

text \<open>
  The process after \<^verbatim>\<open>hw_init\<close> has found one Saleae Logic that already runs the old
  firmware, at address 2 of bus 1: the context as \<^verbatim>\<open>fx2_dev_new\<close> fills it (zeros, and
  \<^verbatim>\<open>trigger_stage = TRIGGER_FIRED\<close>), the instance \<^verbatim>\<open>SR_ST_INACTIVE\<close>, the static counters
  of \<^verbatim>\<open>receive_transfer\<close> at their initial zero.
\<close>

definition fresh_context :: dev_context where
  "fresh_context = \<lparr>profile = supported_fx2 ! 0, fw_updated = 0,
     usb = \<lparr>bus = 1, address = 2, devhdl = None\<rparr>,
     cur_samplerate = 0, limit_samples = 0, probe_mask = 0,
     trigger_mask = [0, 0, 0, 0], trigger_value = [0, 0, 0, 0],
     trigger_stage = TRIGGER_FIRED, trigger_buffer = [0, 0, 0, 0], session_data = 0\<rparr>"

definition fresh_world :: world where
  "fresh_world = \<lparr>num_samples = 0, empty_transfer_count = 0,
     new_saleae_logic_firmware = False,
     dev_insts = [\<lparr>index = 0, status = SR_ST_INACTIVE, priv = 0\<rparr>],
     contexts = (\<lambda>p. fresh_context), sent = [], usb_log = []\<rparr>"

text \<open>
  The process after \<^verbatim>\<open>hw_init\<close> has found the Logic without firmware and uploaded it at
  time 5000: the context is the one of \<^verbatim>\<open>fx2_dev_new\<close> with \<^verbatim>\<open>fw_updated\<close> set (so
  \<^verbatim>\<open>cur_samplerate\<close> is still zero), the instance stays \<^verbatim>\<open>SR_ST_INITIALIZING\<close> and its
  address is the sentinel \<open>0xff\<close>. In \<open>renumerated_env\<close> the device is back on the bus, at
  address 2, at the first round of the wait.
\<close>

definition uploaded_world :: world where
  "uploaded_world = fresh_world
     \<lparr>dev_insts := [\<lparr>index = 0, status = SR_ST_INITIALIZING, priv = 0\<rparr>],
      contexts := (\<lambda>p. fresh_context\<lparr>fw_updated := 5000,
                                        usb := \<lparr>bus = 1, address = 0xff, devhdl = None\<rparr>\<rparr>)\<rparr>"

text \<open>
  A bus with a hub and the Logic, an environment in which every call of \<^verbatim>\<open>hw_dev_open\<close>
  and of \<^verbatim>\<open>hw_dev_acquisition_start\<close> succeeds, a completed transfer of the device with the
  bytes given, and a probe list with probe 1 enabled and the trigger string given.
\<close>

definition bus_with_logic :: "libusb_device list" where
  "bus_with_logic =
    [\<lparr>descriptor = Some (0x1d6b, 0x0002), bus_number = 1, device_address = 1, open_ok = True\<rparr>,
     \<lparr>descriptor = Some (0x0925, 0x3881), bus_number = 1, device_address = 2, open_ok = True\<rparr>]"

definition open_ok_env :: open_env where
  "open_ok_env = \<lparr>devlist = bus_with_logic, rounds = [], claim_ok = True, rate_bulk_ok = True\<rparr>"

definition renumerated_env :: open_env where
  "renumerated_env = \<lparr>devlist = [], rounds = [(bus_with_logic, 5400)], claim_ok = True,
     rate_bulk_ok = True\<rparr>"

definition start_ok_env :: start_env where
  "start_ok_env = \<lparr>packet_malloc_ok = True, header_malloc_ok = True,
     xfers = (\<lambda>i. Submitted), pollfds = [5], now = 1000\<rparr>"

definition completed :: "byte list \<Rightarrow> libusb_transfer" where
  "completed bs = \<lparr>buffer = bs, user_data = 0, malloc_ok = True, submit_ok = True\<rparr>"

definition probe_1 :: "string \<Rightarrow> sr_probe list" where
  "probe_1 tr = [\<lparr>probe_index = 1, enabled = True, trigger = Some tr\<rparr>]"

section \<open>Lemmas on the engine\<close>

lemma sr_session_send_fields [simp]:
  "num_samples (sr_session_send sid p w) = num_samples w"
  "empty_transfer_count (sr_session_send sid p w) = empty_transfer_count w"
  "new_saleae_logic_firmware (sr_session_send sid p w) = new_saleae_logic_firmware w"
  "dev_insts (sr_session_send sid p w) = dev_insts w"
  "contexts (sr_session_send sid p w) = contexts w"
  "sent (sr_session_send sid p w) = sent w @ [(sid, p)]"
  "usb_log (sr_session_send sid p w) = usb_log w"
  by (simp_all add: sr_session_send_def)

lemma usb_do_fields [simp]:
  "num_samples (usb_do c w) = num_samples w"
  "empty_transfer_count (usb_do c w) = empty_transfer_count w"
  "new_saleae_logic_firmware (usb_do c w) = new_saleae_logic_firmware w"
  "dev_insts (usb_do c w) = dev_insts w"
  "contexts (usb_do c w) = contexts w"
  "sent (usb_do c w) = sent w"
  "usb_log (usb_do c w) = usb_log w @ [c]"
  by (simp_all add: usb_do_def)

lemma set_ctx_fields [simp]:
  "num_samples (set_ctx q c w) = num_samples w"
  "empty_transfer_count (set_ctx q c w) = empty_transfer_count w"
  "new_saleae_logic_firmware (set_ctx q c w) = new_saleae_logic_firmware w"
  "dev_insts (set_ctx q c w) = dev_insts w"
  "contexts (set_ctx q c w) = (contexts w)(q := c)"
  "sent (set_ctx q c w) = sent w"
  "usb_log (set_ctx q c w) = usb_log w"
  by (simp_all add: set_ctx_def)

lemma receive_transfer_NULL_fields [simp]:
  "num_samples (receive_transfer_NULL w) = - 1"
  "empty_transfer_count (receive_transfer_NULL w) = empty_transfer_count w"
  "new_saleae_logic_firmware (receive_transfer_NULL w) = new_saleae_logic_firmware w"
  "dev_insts (receive_transfer_NULL w) = dev_insts w"
  "contexts (receive_transfer_NULL w) = contexts w"
  "sent (receive_transfer_NULL w) = sent w"
  "usb_log (receive_transfer_NULL w) = usb_log w"
  by (simp_all add: receive_transfer_NULL_def)

lemma stop_fields [simp]:
  "fst (hw_dev_acquisition_stop i sd w) = SR_OK"
  "num_samples (snd (hw_dev_acquisition_stop i sd w)) = - 1"
  "empty_transfer_count (snd (hw_dev_acquisition_stop i sd w)) = empty_transfer_count w"
  "new_saleae_logic_firmware (snd (hw_dev_acquisition_stop i sd w)) = new_saleae_logic_firmware w"
  "dev_insts (snd (hw_dev_acquisition_stop i sd w)) = dev_insts w"
  "contexts (snd (hw_dev_acquisition_stop i sd w)) = contexts w"
  "sent (snd (hw_dev_acquisition_stop i sd w)) = sent w @ [(sd, SR_DF_END)]"
  "usb_log (snd (hw_dev_acquisition_stop i sd w)) = usb_log w"
  by (simp_all add: hw_dev_acquisition_stop_def)

lemma stop_is_receive_transfer_NULL:
  "receive_transfer cfg None (sr_session_send sd SR_DF_END w)
     = Some (snd (hw_dev_acquisition_stop i sd w))"
  by (simp add: receive_transfer_def hw_dev_acquisition_stop_def)

lemma killed_transfer_freed:
  "num_samples w = - 1 \<Longrightarrow> receive_transfer cfg (Some t) w = Some (usb_do Free_transfer w)"
  by (simp add: receive_transfer_def)

lemma killed_completions:
  "num_samples w = - 1 \<Longrightarrow>
     \<exists>w1. completions cfg ts w = Some w1 \<and> num_samples w1 = - 1 \<and> sent w1 = sent w
        \<and> contexts w1 = contexts w \<and> dev_insts w1 = dev_insts w
        \<and> empty_transfer_count w1 = empty_transfer_count w
        \<and> usb_log w1 = usb_log w @ replicate (length ts) Free_transfer"
proof (induction ts arbitrary: w)
  case Nil
  then show ?case by simp
next
  case (Cons t ts)
  have k: "num_samples (usb_do Free_transfer w) = - 1" using Cons.prems by simp
  from Cons.IH [OF k] obtain w1 where
    "completions cfg ts (usb_do Free_transfer w) = Some w1" "num_samples w1 = - 1"
    "sent w1 = sent w" "contexts w1 = contexts w" "dev_insts w1 = dev_insts w"
    "empty_transfer_count w1 = empty_transfer_count w"
    "usb_log w1 = (usb_log w @ [Free_transfer]) @ replicate (length ts) Free_transfer"
    by auto
  then show ?case
    using Cons.prems by (simp add: killed_transfer_freed replicate_append_same)
qed

lemma empty_transfer:
  assumes "num_samples w \<noteq> - 1" "malloc_ok t" "buffer t = []"
  shows "receive_transfer cfg (Some t) w =
    Some (let w2 = (usb_do (Submit_transfer 4096 (submit_ok t)) w)
                     \<lparr>empty_transfer_count := empty_transfer_count w + 1\<rparr>
          in if empty_transfer_count w + 1 > MAX_EMPTY_TRANSFERS cfg
             then snd (hw_dev_acquisition_stop (- 1) (session_data (contexts w (user_data t))) w2)
             else w2)"
  using assms by (simp add: receive_transfer_def Let_def)

lemma loop_post_stage0:
  "loop_post cfg cur_buf (ctx\<lparr>trigger_stage := 0\<rparr>) r = loop_post cfg cur_buf ctx r"
  by (cases r) (simp_all add: loop_post_def)

lemma trigger_loop_post:
  "context_ok cfg ctx \<Longrightarrow> 0 \<le> trigger_stage ctx \<Longrightarrow> 0 \<le> i \<Longrightarrow>
   \<exists>r. trigger_loop cfg cur_buf i ctx = Some r \<and> loop_post cfg cur_buf ctx r"
proof (induction cfg cur_buf i ctx rule: trigger_loop.induct)
  case (1 cfg cur_buf i ctx)
  note ok = \<open>context_ok cfg ctx\<close> and st = \<open>0 \<le> trigger_stage ctx\<close> and i0 = \<open>0 \<le> i\<close>
  show ?case
  proof (cases "i < int (length cur_buf)")
    case False
    then show ?thesis using ok st by (subst trigger_loop.simps) (simp add: loop_post_def)
  next
    case inb: True
    have guard: "\<not> (i < 0 \<or> trigger_stage ctx < 0
           \<or> \<not> trigger_stage ctx < int (NUM_TRIGGER_STAGES cfg)
           \<or> length (trigger_mask ctx) \<noteq> NUM_TRIGGER_STAGES cfg
           \<or> length (trigger_value ctx) \<noteq> NUM_TRIGGER_STAGES cfg
           \<or> length (trigger_buffer ctx) \<noteq> NUM_TRIGGER_STAGES cfg)"
      using ok st i0 by (simp add: context_ok_def)
    show ?thesis
    proof (cases "(cur_buf ! nat i AND trigger_mask ctx ! nat (trigger_stage ctx))
             = trigger_value ctx ! nat (trigger_stage ctx)")
      case True
      then show ?thesis
        using inb guard ok st i0
        by (subst trigger_loop.simps) (auto simp: loop_post_def context_ok_def TRIGGER_FIRED_def)
    next
      case nomatch: False
      show ?thesis
      proof (cases "trigger_stage ctx > 0")
        case True
        define j where "j = (if i - trigger_stage ctx < - 1 then - 1 else i - trigger_stage ctx) + 1"
        have j0: "0 \<le> j" by (simp add: j_def)
        have ok0: "context_ok cfg (ctx\<lparr>trigger_stage := 0\<rparr>)"
          using ok True by (simp add: context_ok_def)
        have "\<exists>r. trigger_loop cfg cur_buf j (ctx\<lparr>trigger_stage := 0\<rparr>) = Some r
                 \<and> loop_post cfg cur_buf (ctx\<lparr>trigger_stage := 0\<rparr>) r"
          unfolding j_def using inb guard nomatch True ok0 j0 [unfolded j_def]
          by (intro "1.IH"(1)) simp_all
        moreover have "trigger_loop cfg cur_buf i ctx
                        = trigger_loop cfg cur_buf j (ctx\<lparr>trigger_stage := 0\<rparr>)"
          unfolding j_def using inb guard nomatch True
          by (subst trigger_loop.simps) (simp del: One_nat_def)
        ultimately show ?thesis by (simp add: loop_post_stage0)
      next
        case False
        have "\<exists>r. trigger_loop cfg cur_buf (i + 1) ctx = Some r \<and> loop_post cfg cur_buf ctx r"
          using inb guard nomatch False ok st i0 by (intro "1.IH"(2)) simp_all
        moreover have "trigger_loop cfg cur_buf i ctx = trigger_loop cfg cur_buf (i + 1) ctx"
          using inb guard nomatch False by (subst trigger_loop.simps) simp
        ultimately show ?thesis by simp
      qed
    qed
  qed
qed

text \<open>
  The callback enters the loop at index 0, and a match that does not fire returns: a stage
  above zero is only ever met at index 0. When the first byte of a transfer fails that
  stage, the rewind \<^verbatim>\<open>i -= ctx->trigger_stage\<close> is cut off at \<open>-1\<close>, and the loop goes on at
  index 0 of the same transfer with stage 0.
\<close>

lemma rewind_restarts_the_transfer:
  assumes "context_ok cfg ctx" "0 < trigger_stage ctx" "cur_buf \<noteq> []"
    and "(cur_buf ! 0 AND trigger_mask ctx ! nat (trigger_stage ctx))
           \<noteq> trigger_value ctx ! nat (trigger_stage ctx)"
  shows "trigger_loop cfg cur_buf 0 ctx = trigger_loop cfg cur_buf 0 (ctx\<lparr>trigger_stage := 0\<rparr>)"
proof (cases "1 < trigger_stage ctx")
  case True
  then show ?thesis
    using assms by (subst trigger_loop.simps) (simp add: context_ok_def)
next
  case False
  then have "trigger_stage ctx = 1" using assms(2) by simp
  then show ?thesis
    using assms by (subst trigger_loop.simps) (simp add: context_ok_def)
qed

lemma logic_bytes_append [simp]: "logic_bytes (a @ b) = logic_bytes a + logic_bytes b"
  by (simp add: logic_bytes_def)

lemma logic_bytes_Cons [simp]:
  "logic_bytes ((sd, pk) # tr) = logic_length pk + logic_bytes tr"
  "logic_bytes [] = 0"
  by (simp_all add: logic_bytes_def)

lemma send_transfer_fired:
  assumes "trigger_stage (contexts w p) = - 1"
    and "0 \<le> num_samples w" "num_samples w \<le> int (limit_samples (contexts w p))"
    and "length cur_buf \<le> 4096" "int (limit_samples (contexts w p)) + 4096 < 2 ^ 31"
    and "0 < limit_samples (contexts w p)"
  shows "\<exists>w1. send_transfer cur_buf off p w = Some w1 \<and> contexts w1 = contexts w
     \<and> logic_bytes (sent w1) = logic_bytes (sent w) + int (length cur_buf) - off
     \<and> (if num_samples w + int (length cur_buf) > int (limit_samples (contexts w p))
         then num_samples w1 = - 1
         else num_samples w1 = num_samples w + int (length cur_buf))"
proof -
  let ?n = "num_samples w + int (length cur_buf)"
  have r: "0 \<le> ?n" "?n < 2 ^ 32" "?n \<le> 2147483647" using assms by auto
  then have m: "?n mod 4294967296 = ?n" by simp
  show ?thesis
    using assms r unfolding send_transfer_def Let_def
    by (simp add: TRIGGER_FIRED_def m del: mod_pos_pos_trivial)
qed

lemma send_transfer_not_fired:
  "trigger_stage (contexts w p) \<noteq> - 1 \<Longrightarrow> send_transfer cur_buf off p w = Some w"
  by (simp add: send_transfer_def TRIGGER_FIRED_def)

lemma acq_inv_usb_do [simp]: "acq_inv cfg p base (usb_do c w) = acq_inv cfg p base w"
  by (simp add: acq_inv_def Let_def)

lemma receive_transfer_nonempty:
  assumes "num_samples w \<noteq> - 1" "malloc_ok t" "buffer t \<noteq> []"
  shows "receive_transfer cfg (Some t) w =
    (let w2 = (usb_do (Submit_transfer 4096 (submit_ok t)) w)\<lparr>empty_transfer_count := 0\<rparr>;
         p = user_data t;
         ctx = contexts w p
     in if trigger_stage ctx \<ge> 0 then
          (case trigger_loop cfg (buffer t) 0 ctx of
             None \<Rightarrow> None
           | Some (Loop_return ctx1) \<Rightarrow> Some (set_ctx p ctx1 w2)
           | Some (Loop_break trigger_offset ctx1) \<Rightarrow>
               send_transfer (buffer t) trigger_offset p
                 (set_ctx p (ctx1\<lparr>trigger_stage := TRIGGER_FIRED\<rparr>)
                    (sr_session_send (session_data ctx1)
                       (SR_DF_LOGIC 1 (trigger_stage ctx1)
                          (take (nat (trigger_stage ctx1)) (trigger_buffer ctx1)))
                       (sr_session_send (session_data ctx1) SR_DF_TRIGGER w2)))
           | Some (Loop_end ctx1) \<Rightarrow> send_transfer (buffer t) 0 p (set_ctx p ctx1 w2))
        else send_transfer (buffer t) 0 p w2)"
  using assms by (simp add: receive_transfer_def Let_def split: option.split loop_exit.split)

lemma receive_transfer_inv:
  assumes inv: "acq_inv cfg p base w"
    and L: "0 < limit_samples (contexts w p)" "int (limit_samples (contexts w p)) + 4096 < 2 ^ 31"
    and N: "1 \<le> NUM_TRIGGER_STAGES cfg"
    and t: "user_data t = p" "length (buffer t) \<le> 4096"
  shows "\<exists>w1. receive_transfer cfg (Some t) w = Some w1 \<and> acq_inv cfg p base w1
           \<and> limit_samples (contexts w1 p) = limit_samples (contexts w p)"
proof (cases "num_samples w = - 1")
  case True
  then show ?thesis using inv by (simp add: killed_transfer_freed)
next
  case alive: False
  show ?thesis
  proof (cases "malloc_ok t")
    case False
    then show ?thesis using alive inv by (simp add: receive_transfer_def)
  next
    case m: True
    show ?thesis
    proof (cases "buffer t = []")
      case True
      show ?thesis
        using inv alive N L
        by (auto simp: empty_transfer [OF alive m True] acq_inv_def Let_def)
    next
      case ne: False
      define w2 where "w2 = (usb_do (Submit_transfer 4096 (submit_ok t)) w)\<lparr>empty_transfer_count := 0\<rparr>"
      have w2: "contexts w2 = contexts w" "sent w2 = sent w" "num_samples w2 = num_samples w"
        by (simp_all add: w2_def)
      have inv2: "acq_inv cfg p base w2" using inv by (auto simp: acq_inv_def Let_def w2)
      let ?ctx = "contexts w p"
      have ok: "context_ok cfg ?ctx" using inv by (simp add: acq_inv_def Let_def)
      have ns: "0 \<le> num_samples w" "num_samples w \<le> int (limit_samples ?ctx)"
        using inv alive by (simp_all add: acq_inv_def Let_def)
      show ?thesis
      proof (cases "0 \<le> trigger_stage ?ctx")
        case searching: True
        have S: "logic_bytes (sent w) - base \<le> num_samples w"
          using inv alive searching by (simp add: acq_inv_def Let_def)
        from trigger_loop_post [OF ok searching, of 0 "buffer t"]
        obtain r where r: "trigger_loop cfg (buffer t) 0 ?ctx = Some r"
          and post: "loop_post cfg (buffer t) ?ctx r" by auto
        show ?thesis
        proof (cases r)
          case (Loop_end c)
          have c: "context_ok cfg c" "0 \<le> trigger_stage c"
            "limit_samples c = limit_samples ?ctx"
            using post Loop_end by (simp_all add: loop_post_def)
          have "receive_transfer cfg (Some t) w = Some (set_ctx p c w2)"
            using r Loop_end c t
            by (simp add: receive_transfer_nonempty [OF alive m ne] w2_def [symmetric]
                  searching send_transfer_not_fired)
          moreover have "acq_inv cfg p base (set_ctx p c w2)"
            using c S ns alive by (simp add: acq_inv_def Let_def w2)
          ultimately show ?thesis using c by simp
        next
          case (Loop_return c)
          have c: "context_ok cfg c" "0 \<le> trigger_stage c"
            "limit_samples c = limit_samples ?ctx"
            using post Loop_return by (simp_all add: loop_post_def)
          have "receive_transfer cfg (Some t) w = Some (set_ctx p c w2)"
            using r Loop_return t
            by (simp add: receive_transfer_nonempty [OF alive m ne] w2_def [symmetric] searching)
          moreover have "acq_inv cfg p base (set_ctx p c w2)"
            using c S ns alive by (simp add: acq_inv_def Let_def w2)
          ultimately show ?thesis using c by simp
        next
          case (Loop_break off c)
          have c: "0 < off" "off \<le> int (length (buffer t))" "0 < trigger_stage c"
            "trigger_stage c \<le> int (NUM_TRIGGER_STAGES cfg)"
            "context_ok cfg (c\<lparr>trigger_stage := TRIGGER_FIRED\<rparr>)"
            "limit_samples c = limit_samples ?ctx"
            using post Loop_break by (simp_all add: loop_post_def)
          define w5 where "w5 = set_ctx p (c\<lparr>trigger_stage := TRIGGER_FIRED\<rparr>)
                    (sr_session_send (session_data c)
                       (SR_DF_LOGIC 1 (trigger_stage c)
                          (take (nat (trigger_stage c)) (trigger_buffer c)))
                       (sr_session_send (session_data c) SR_DF_TRIGGER w2))"
          have w5: "contexts w5 p = c\<lparr>trigger_stage := TRIGGER_FIRED\<rparr>"
            "num_samples w5 = num_samples w"
            "logic_bytes (sent w5) = logic_bytes (sent w) + trigger_stage c"
            by (simp_all add: w5_def w2)
          have rt: "receive_transfer cfg (Some t) w = send_transfer (buffer t) off p w5"
            using r Loop_break t
            by (simp add: receive_transfer_nonempty [OF alive m ne] w2_def [symmetric]
                  w5_def [symmetric] searching)
          have "\<exists>w1. send_transfer (buffer t) off p w5 = Some w1 \<and> contexts w1 = contexts w5
             \<and> logic_bytes (sent w1) = logic_bytes (sent w5) + int (length (buffer t)) - off
             \<and> (if num_samples w5 + int (length (buffer t)) > int (limit_samples (contexts w5 p))
                 then num_samples w1 = - 1
                 else num_samples w1 = num_samples w5 + int (length (buffer t)))"
            using ns L t c by (intro send_transfer_fired) (simp_all add: w5 TRIGGER_FIRED_def)
          then obtain w1 where w1: "send_transfer (buffer t) off p w5 = Some w1"
            "contexts w1 = contexts w5"
            "logic_bytes (sent w1) = logic_bytes (sent w5) + int (length (buffer t)) - off"
            "if num_samples w + int (length (buffer t)) > int (limit_samples ?ctx)
             then num_samples w1 = - 1
             else num_samples w1 = num_samples w + int (length (buffer t))"
            by (auto simp: w5 c)
          have "acq_inv cfg p base w1"
            using w1 c S ns t L N
            by (auto simp: acq_inv_def Let_def w5 TRIGGER_FIRED_def Let_def split: if_splits)
          then show ?thesis using rt w1 c by (simp add: w5)
        qed
      next
        case notsearching: False
        have rt: "receive_transfer cfg (Some t) w = send_transfer (buffer t) 0 p w2"
          using t notsearching
          by (simp add: receive_transfer_nonempty [OF alive m ne] w2_def [symmetric])
        show ?thesis
        proof (cases "trigger_stage ?ctx = - 1")
          case False
          then show ?thesis using rt inv2 by (simp add: send_transfer_not_fired w2)
        next
          case fired: True
          have S: "logic_bytes (sent w) - base \<le> num_samples w + int (NUM_TRIGGER_STAGES cfg) - 1"
            using inv alive fired by (simp add: acq_inv_def Let_def)
          have "\<exists>w1. send_transfer (buffer t) 0 p w2 = Some w1 \<and> contexts w1 = contexts w2
             \<and> logic_bytes (sent w1) = logic_bytes (sent w2) + int (length (buffer t)) - 0
             \<and> (if num_samples w2 + int (length (buffer t)) > int (limit_samples (contexts w2 p))
                 then num_samples w1 = - 1
                 else num_samples w1 = num_samples w2 + int (length (buffer t)))"
            using ns L t fired by (intro send_transfer_fired) (simp_all add: w2)
          then obtain w1 where w1: "send_transfer (buffer t) 0 p w2 = Some w1"
            "contexts w1 = contexts w"
            "logic_bytes (sent w1) = logic_bytes (sent w) + int (length (buffer t))"
            "if num_samples w + int (length (buffer t)) > int (limit_samples ?ctx)
             then num_samples w1 = - 1
             else num_samples w1 = num_samples w + int (length (buffer t))"
            by (auto simp: w2)
          have "acq_inv cfg p base w1"
            using w1 S ns t L N ok fired
            by (auto simp: acq_inv_def Let_def split: if_splits)
          then show ?thesis using rt w1 by simp
        qed
      qed
    qed
  qed
qed

lemma completions_append:
  "completions cfg (a @ b) w =
     (case completions cfg a w of None \<Rightarrow> None | Some w1 \<Rightarrow> completions cfg b w1)"
  by (induction a arbitrary: w) (simp_all split: option.split)

lemma send_transfer_empty_count:
  "send_transfer cur_buf off p w = Some w1 \<Longrightarrow> empty_transfer_count w1 = empty_transfer_count w"
  by (auto simp: send_transfer_def Let_def split: if_splits)

lemma nonempty_resets_count:
  assumes "num_samples w \<noteq> - 1" "malloc_ok t" "buffer t \<noteq> []"
    and "receive_transfer cfg (Some t) w = Some w1"
  shows "empty_transfer_count w1 = 0"
  using assms(4) unfolding receive_transfer_nonempty [OF assms(1-3)] Let_def
  by (auto split: if_splits option.splits loop_exit.splits dest!: send_transfer_empty_count)

lemma send_transfer_total:
  "num_samples w + int (length cur_buf) \<le> 2147483647 \<Longrightarrow>
     \<exists>w1. send_transfer cur_buf off p w = Some w1"
  by (simp add: send_transfer_def Let_def)

lemma receive_transfer_total:
  assumes "context_ok cfg (contexts w (user_data t))"
    and "num_samples w + int (length (buffer t)) \<le> 2147483647"
  shows "\<exists>w1. receive_transfer cfg (Some t) w = Some w1"
proof (cases "num_samples w \<noteq> - 1 \<and> malloc_ok t \<and> buffer t \<noteq> []")
  case False
  then show ?thesis by (auto simp: receive_transfer_def Let_def)
next
  case True
  then have a: "num_samples w \<noteq> - 1" "malloc_ok t" "buffer t \<noteq> []" by auto
  show ?thesis
  proof (cases "0 \<le> trigger_stage (contexts w (user_data t))")
    case False
    then show ?thesis
      using assms(2) by (simp add: receive_transfer_nonempty [OF a] Let_def send_transfer_total)
  next
    case True
    from trigger_loop_post [OF assms(1) True, of 0 "buffer t"]
    obtain r where r: "trigger_loop cfg (buffer t) 0 (contexts w (user_data t)) = Some r" by auto
    show ?thesis
      using assms(2) r True
      by (cases r) (simp_all add: receive_transfer_nonempty [OF a] Let_def send_transfer_total)
  qed
qed

lemma empty_completions_quiet:
  assumes "num_samples w \<noteq> - 1"
    and "\<forall>t \<in> set ts. buffer t = [] \<and> malloc_ok t"
    and "empty_transfer_count w + int (length ts) \<le> MAX_EMPTY_TRANSFERS cfg"
  shows "\<exists>w1. completions cfg ts w = Some w1 \<and> sent w1 = sent w
           \<and> num_samples w1 = num_samples w \<and> contexts w1 = contexts w
           \<and> empty_transfer_count w1 = empty_transfer_count w + int (length ts)"
  using assms
proof (induction ts arbitrary: w)
  case Nil
  then show ?case by simp
next
  case (Cons t ts)
  define w2 where "w2 = (usb_do (Submit_transfer 4096 (submit_ok t)) w)
                     \<lparr>empty_transfer_count := empty_transfer_count w + 1\<rparr>"
  have t: "buffer t = []" "malloc_ok t" using Cons.prems by auto
  have rt: "receive_transfer cfg (Some t) w = Some w2"
    using Cons.prems(3) by (simp add: empty_transfer [OF Cons.prems(1) t(2) t(1)] w2_def Let_def)
  have w2: "sent w2 = sent w" "num_samples w2 = num_samples w" "contexts w2 = contexts w"
    "empty_transfer_count w2 = empty_transfer_count w + 1" by (simp_all add: w2_def)
  have "\<exists>w1. completions cfg ts w2 = Some w1 \<and> sent w1 = sent w2
           \<and> num_samples w1 = num_samples w2 \<and> contexts w1 = contexts w2
           \<and> empty_transfer_count w1 = empty_transfer_count w2 + int (length ts)"
    using Cons.prems by (intro Cons.IH) (simp_all add: w2)
  then show ?case by (auto simp: rt w2)
qed

lemma completions_inv:
  assumes "acq_inv cfg p base w"
    and "0 < limit_samples (contexts w p)" "int (limit_samples (contexts w p)) + 4096 < 2 ^ 31"
    and "1 \<le> NUM_TRIGGER_STAGES cfg"
    and "\<forall>t \<in> set ts. user_data t = p \<and> length (buffer t) \<le> 4096"
  shows "\<exists>w1. completions cfg ts w = Some w1 \<and> acq_inv cfg p base w1
           \<and> limit_samples (contexts w1 p) = limit_samples (contexts w p)"
  using assms
proof (induction ts arbitrary: w)
  case Nil
  then show ?case by simp
next
  case (Cons t ts)
  have t: "user_data t = p" "length (buffer t) \<le> 4096" using Cons.prems(5) by simp_all
  from receive_transfer_inv [OF Cons.prems(1-4) t]
  obtain w2 where w2: "receive_transfer cfg (Some t) w = Some w2" "acq_inv cfg p base w2"
    "limit_samples (contexts w2 p) = limit_samples (contexts w p)" by blast
  have "\<exists>w1. completions cfg ts w2 = Some w1 \<and> acq_inv cfg p base w1
           \<and> limit_samples (contexts w1 p) = limit_samples (contexts w2 p)"
    using w2 Cons.prems by (intro Cons.IH) simp_all
  then show ?case using w2 by auto
qed

section \<open>What the calls of the driver leave alone\<close>

lemma sl_open_dev_engine:
  "num_samples (snd (sl_open_dev dl i w)) = num_samples w"
  "empty_transfer_count (snd (sl_open_dev dl i w)) = empty_transfer_count w"
  "sent (snd (sl_open_dev dl i w)) = sent w"
  by (simp_all add: sl_open_dev_def Let_def split: option.split prod.split)

lemma renum_loop_engine:
  "renum_loop cfg i p rs err td w = Some (e, w1) \<Longrightarrow>
     num_samples w1 = num_samples w \<and> empty_transfer_count w1 = empty_transfer_count w
     \<and> sent w1 = sent w"
proof (induction rs arbitrary: err td w)
  case Nil
  then show ?case by (simp split: if_splits)
next
  case (Cons r rs)
  obtain dl cur_time where r: "r = (dl, cur_time)" by (cases r)
  obtain e1 w2 where o: "sl_open_dev dl i w = (e1, w2)" by (cases "sl_open_dev dl i w")
  have w2: "num_samples w2 = num_samples w" "empty_transfer_count w2 = empty_transfer_count w"
    "sent w2 = sent w"
    using sl_open_dev_engine [of dl i w] o by simp_all
  show ?case
  proof (cases "td < MAX_RENUM_DELAY cfg \<and> e1 \<noteq> SR_OK")
    case True
    then have "renum_loop cfg i p rs e1 (cur_time - fw_updated (contexts w2 p)) w2 = Some (e, w1)"
      using Cons.prems r o by simp
    from Cons.IH [OF this] show ?thesis by (simp add: w2)
  next
    case False
    then show ?thesis using Cons.prems r o w2 by (auto split: if_splits)
  qed
qed

lemma set_samplerate_engine:
  "set_samplerate b sdi r w = Some (e, w1) \<Longrightarrow>
     num_samples w1 = num_samples w \<and> empty_transfer_count w1 = empty_transfer_count w
     \<and> sent w1 = sent w"
  by (auto simp: set_samplerate_def Let_def split: if_splits option.splits)

lemma hw_dev_config_set_engine:
  "hw_dev_config_set cfg b i hv w = Some (e, w1) \<Longrightarrow>
     num_samples w1 = num_samples w \<and> empty_transfer_count w1 = empty_transfer_count w
     \<and> sent w1 = sent w"
  by (auto simp: hw_dev_config_set_def Let_def
        split: option.splits hwcap_value.splits prod.splits sum.splits
        dest: set_samplerate_engine)

lemma hw_dev_open_engine:
  assumes "hw_dev_open cfg env i w = Some (e, w1)"
  shows "num_samples w1 = num_samples w \<and> empty_transfer_count w1 = empty_transfer_count w
     \<and> sent w1 = sent w"
proof (cases "sr_dev_inst_get (dev_insts w) i")
  case None
  then show ?thesis using assms by (simp add: hw_dev_open_def)
next
  case (Some k)
  define ctx where "ctx = contexts w (priv (dev_insts w ! k))"
  define first where "first = (if fw_updated ctx > 0
      then renum_loop cfg i (priv (dev_insts w ! k)) (rounds env) SR_OK 0 w
      else Some (sl_open_dev (devlist env) i w))"
  from assms Some obtain err w2 where f: "first = Some (err, w2)"
    by (cases first) (auto simp: hw_dev_open_def Let_def first_def ctx_def)
  have w2: "num_samples w2 = num_samples w \<and> empty_transfer_count w2 = empty_transfer_count w
     \<and> sent w2 = sent w"
  proof (cases "fw_updated ctx > 0")
    case True
    then show ?thesis using f renum_loop_engine by (simp add: first_def)
  next
    case False
    then have "w2 = snd (sl_open_dev (devlist env) i w)" using f by (simp add: first_def)
    then show ?thesis by (simp add: sl_open_dev_engine)
  qed
  show ?thesis
    using assms Some f w2
    by (auto simp: hw_dev_open_def Let_def first_def [symmetric] ctx_def [symmetric]
          split: if_splits option.splits dest: hw_dev_config_set_engine)
qed

lemma hw_dev_close_engine:
  "num_samples (snd (hw_dev_close i w)) = num_samples w"
  "empty_transfer_count (snd (hw_dev_close i w)) = empty_transfer_count w"
  "sent (snd (hw_dev_close i w)) = sent w"
  by (simp_all add: hw_dev_close_def close_dev_def Let_def split: option.split)

lemma submit_loop_engine:
  "num_samples (snd (submit_loop out n i sz w)) = num_samples w
   \<and> empty_transfer_count (snd (submit_loop out n i sz w)) = empty_transfer_count w
   \<and> sent (snd (submit_loop out n i sz w)) = sent w"
  by (induction n arbitrary: i sz w) (simp_all split: xfer_outcome.split)

lemma fold_source_add_engine:
  "num_samples (fold (\<lambda>fd. usb_do (Source_add fd)) fds w) = num_samples w
   \<and> empty_transfer_count (fold (\<lambda>fd. usb_do (Source_add fd)) fds w) = empty_transfer_count w
   \<and> sent (fold (\<lambda>fd. usb_do (Source_add fd)) fds w) = sent w"
  by (induction fds arbitrary: w) simp_all

lemma logic_packets_simps [simp]:
  "logic_packets [] = []"
  "logic_packets (tr @ [(sd, SR_DF_END)]) = logic_packets tr"
  "logic_packets (tr @ [(sd, SR_DF_HEADER h)]) = logic_packets tr"
  "logic_packets (tr @ [(sd, SR_DF_TRIGGER)]) = logic_packets tr"
  "logic_packets (tr @ [(sd, SR_DF_LOGIC u l d)]) = logic_packets tr @ [SR_DF_LOGIC u l d]"
  by (simp_all add: logic_packets_def packets_def)

lemma hw_dev_acquisition_start_engine:
  "num_samples (snd (hw_dev_acquisition_start cfg env i sd w)) = num_samples w
   \<and> empty_transfer_count (snd (hw_dev_acquisition_start cfg env i sd w)) = empty_transfer_count w
   \<and> logic_packets (sent (snd (hw_dev_acquisition_start cfg env i sd w))) = logic_packets (sent w)"
proof (cases "sr_dev_inst_get (dev_insts w) i")
  case None
  then show ?thesis by (simp add: hw_dev_acquisition_start_def)
next
  case (Some k)
  define w1 where "w1 = set_ctx (priv (dev_insts w ! k))
         ((contexts w (priv (dev_insts w ! k)))\<lparr>session_data := sd\<rparr>) w"
  obtain ret w2 where s: "submit_loop (xfers env) (NUM_SIMUL_TRANSFERS cfg) 0 2048 w1 = (ret, w2)"
    by (cases "submit_loop (xfers env) (NUM_SIMUL_TRANSFERS cfg) 0 2048 w1")
  have w2: "num_samples w2 = num_samples w" "empty_transfer_count w2 = empty_transfer_count w"
    "sent w2 = sent w"
    using submit_loop_engine [of "xfers env" "NUM_SIMUL_TRANSFERS cfg" 0 2048 w1] s
    by (simp_all add: w1_def)
  have w1: "num_samples w1 = num_samples w" "empty_transfer_count w1 = empty_transfer_count w"
    "sent w1 = sent w" by (simp_all add: w1_def)
  show ?thesis
    using Some s w2 w1
    by (simp add: hw_dev_acquisition_start_def Let_def w1_def [symmetric]
          fold_source_add_engine)
qed

lemma killed_step:
  assumes "num_samples w = - 1" "step cfg c w = Some w1"
  shows "num_samples w1 = - 1 \<and> logic_packets (sent w1) = logic_packets (sent w)"
proof (cases c)
  case (Dev_open env i)
  then obtain e where "hw_dev_open cfg env i w = Some (e, w1)" using assms(2) by auto
  from hw_dev_open_engine [OF this] show ?thesis using assms(1) by simp
next
  case (Dev_close i)
  then show ?thesis using assms by (auto simp: hw_dev_close_engine)
next
  case (Dev_config_set b i hv)
  then obtain e where "hw_dev_config_set cfg b i hv w = Some (e, w1)" using assms(2) by auto
  from hw_dev_config_set_engine [OF this] show ?thesis using assms(1) by simp
next
  case (Acquisition_start env i sd)
  then show ?thesis using assms hw_dev_acquisition_start_engine [of cfg env i sd w] by auto
next
  case (Acquisition_stop i sd)
  then show ?thesis using assms by auto
next
  case (Transfer_done t)
  then show ?thesis using assms by (auto simp: killed_transfer_freed)
qed

lemma killed_run:
  "num_samples w = - 1 \<Longrightarrow> run cfg cs w = Some w1 \<Longrightarrow>
     num_samples w1 = - 1 \<and> logic_packets (sent w1) = logic_packets (sent w)"
proof (induction cs arbitrary: w)
  case Nil
  then show ?case by simp
next
  case (Cons c cs)
  from Cons.prems(2) obtain w2 where s: "step cfg c w = Some w2" and r: "run cfg cs w2 = Some w1"
    by (auto split: option.splits)
  from killed_step [OF Cons.prems(1) s] Cons.IH [OF _ r] show ?case by simp
qed

section \<open>Evaluating the model on numerals\<close>

lemma bit_length_numeral:
  "bit_length 0 = 0"
  "bit_length 1 = 1"
  "bit_length (Suc 0) = 1"
  "bit_length (numeral (num.Bit0 n)) = Suc (bit_length (numeral n))"
  "bit_length (numeral (num.Bit1 n)) = Suc (bit_length (numeral n))"
proof -
  show "bit_length 0 = 0" by (simp add: bit_length.simps)
  show "bit_length 1 = 1" by (simp add: bit_length.simps)
  show "bit_length (Suc 0) = 1" by (simp add: bit_length.simps)
  have "numeral (num.Bit0 n) div (2::nat) = numeral n" by simp
  then show "bit_length (numeral (num.Bit0 n)) = Suc (bit_length (numeral n))"
    by (subst bit_length.simps) simp
  have "numeral (num.Bit1 n) div (2::nat) = numeral n" by simp
  then show "bit_length (numeral (num.Bit1 n)) = Suc (bit_length (numeral n))"
    by (subst bit_length.simps) simp
qed

lemma replicate_numeral: "replicate (numeral k) x = x # replicate (pred_numeral k) x"
  by (simp add: numeral_eq_Suc)

lemma submit_loop_numeral:
  "submit_loop out (numeral k) i sz w =
    (case out i of
       Buf_malloc_failed \<Rightarrow> (SR_ERR_MALLOC, w)
     | Submit_failed \<Rightarrow> (SR_ERR, usb_do Free_transfer (usb_do (Submit_transfer sz False) w))
     | Submitted \<Rightarrow> submit_loop out (pred_numeral k) (i + 1) 4096 (usb_do (Submit_transfer sz True) w))"
  by (simp add: numeral_eq_Suc)

lemmas double_defs = legacy_divider_value_def double_div_def double_of_nat_def double_quot_def
  double_trunc_def round_half_even_def bit_length_numeral Let_def

lemmas scenario_defs = scenario_tunables_def supported_fx2_def fresh_context_def fresh_world_def
  bus_with_logic_def open_ok_env_def start_ok_env_def completed_def probe_1_def
  uploaded_world_def renumerated_env_def ctx_at_def status_at_def

lemmas driver_defs = hw_dev_open_def sl_open_dev_def hw_dev_config_set_def set_samplerate_def
  configure_probes_def hw_dev_acquisition_start_def hw_dev_acquisition_stop_def
  hw_dev_close_def close_dev_def receive_transfer_def send_transfer_def
  receive_transfer_NULL_def sr_session_send_def usb_do_def set_ctx_def
  supported_samplerates_def TRIGGER_FIRED_def array_or_def packets_def Let_def
  replicate_numeral submit_loop_numeral

lemma legacy_200k: "legacy_divider_value 200000 = Some 0xef"
  by (simp add: double_defs)

lemma legacy_4m: "legacy_divider_value 4000000 = Some 11"
  by (simp add: double_defs)

lemma samplerate_scan_unsupported:
  "samplerate \<notin> set supported_samplerates - {0} \<Longrightarrow>
     samplerate_scan supported_samplerates samplerate = 0"
  by (auto simp: supported_samplerates_def)

section \<open>Lemmas on the probe configuration\<close>

lemma array_or_length: "array_or a i v = Some b \<Longrightarrow> length b = length a"
  by (auto simp: array_or_def split: if_splits)




text \<open>
  A configuration that \<^verbatim>\<open>configure_probes\<close> accepts leaves the context in order, so the
  contexts of the theorems on the engine are those of configured devices.
\<close>

lemma trigger_chars_lengths:
  "trigger_chars cfg pb tcs stage ctx = Inr (err, stage1, ctx1) \<Longrightarrow>
     length (trigger_mask ctx1) = length (trigger_mask ctx)
     \<and> length (trigger_value ctx1) = length (trigger_value ctx)
     \<and> trigger_buffer ctx1 = trigger_buffer ctx"
proof (induction tcs arbitrary: stage ctx)
  case Nil
  then show ?case by simp
next
  case (Cons tc rest)
  from Cons.prems obtain m where m: "array_or (trigger_mask ctx) stage pb = Some m"
    by (cases "array_or (trigger_mask ctx) stage pb") auto
  from Cons.prems m obtain v where
    v: "(if tc = CHR ''1'' then array_or (trigger_value ctx) stage pb
         else Some (trigger_value ctx)) = Some v"
    by (cases "if tc = CHR ''1'' then array_or (trigger_value ctx) stage pb
               else Some (trigger_value ctx)") auto
  have lm: "length m = length (trigger_mask ctx)" using m by (rule array_or_length)
  have lv: "length v = length (trigger_value ctx)"
    using v by (auto split: if_splits dest: array_or_length)
  show ?case
  proof (cases "stage + 1 > NUM_TRIGGER_STAGES cfg")
    case True
    then have "ctx1 = ctx\<lparr>trigger_mask := m, trigger_value := v\<rparr>"
      using Cons.prems m v by simp
    then show ?thesis using lm lv by simp
  next
    case False
    then have "trigger_chars cfg pb rest (stage + 1) (ctx\<lparr>trigger_mask := m, trigger_value := v\<rparr>)
        = Inr (err, stage1, ctx1)"
      using Cons.prems m v by simp
    from Cons.IH [OF this] show ?thesis using lm lv by simp
  qed
qed

lemma probes_loop_lengths:
  "probes_loop cfg probes stage ctx = Inr (err, stage1, ctx1) \<Longrightarrow>
     length (trigger_mask ctx1) = length (trigger_mask ctx)
     \<and> length (trigger_value ctx1) = length (trigger_value ctx)
     \<and> trigger_buffer ctx1 = trigger_buffer ctx"
proof (induction probes arbitrary: stage ctx)
  case Nil
  then show ?case by simp
next
  case (Cons pr l)
  show ?case
  proof (cases "enabled pr")
    case False
    then show ?thesis using Cons.prems Cons.IH by simp
  next
    case en: True
    then have idx: "\<not> (probe_index pr - 1 < 0 \<or> probe_index pr - 1 \<ge> 31)"
      using Cons.prems by (auto split: if_splits)
    define ctx2 where "ctx2 = ctx\<lparr>probe_mask := probe_mask ctx
          OR word_of_int (push_bit (nat (probe_index pr - 1)) 1)\<rparr>"
    show ?thesis
    proof (cases "trigger pr")
      case None
      then have "probes_loop cfg l stage ctx2 = Inr (err, stage1, ctx1)"
        using Cons.prems en idx by (simp add: Let_def ctx2_def)
      from Cons.IH [OF this] show ?thesis by (simp add: ctx2_def)
    next
      case (Some tcs)
      from Cons.prems en idx Some obtain e2 st2 ctx3 where
        tc: "trigger_chars cfg (word_of_int (push_bit (nat (probe_index pr - 1)) 1)) tcs 0 ctx2
              = Inr (e2, st2, ctx3)"
        by (cases "trigger_chars cfg (word_of_int (push_bit (nat (probe_index pr - 1)) 1)) tcs 0 ctx2")
           (auto simp: Let_def ctx2_def)
      note l3 = trigger_chars_lengths [OF tc]
      show ?thesis
      proof (cases e2)
        case True
        then show ?thesis using Cons.prems en idx Some tc l3 by (simp add: Let_def ctx2_def)
      next
        case False
        then have "probes_loop cfg l (int st2) ctx3 = Inr (err, stage1, ctx1)"
          using Cons.prems en idx Some tc by (simp add: Let_def ctx2_def)
        from Cons.IH [OF this] l3 show ?thesis by (simp add: ctx2_def)
      qed
    qed
  qed
qed

lemma configure_probes_context_ok:
  assumes "configure_probes cfg ctx probes = Inr (SR_OK, ctx1)"
    and "length (trigger_buffer ctx) = NUM_TRIGGER_STAGES cfg" "1 \<le> NUM_TRIGGER_STAGES cfg"
  shows "context_ok cfg ctx1"
proof -
  define ctx0 where "ctx0 = ctx\<lparr>probe_mask := 0,
                    trigger_mask := replicate (NUM_TRIGGER_STAGES cfg) 0,
                    trigger_value := replicate (NUM_TRIGGER_STAGES cfg) 0\<rparr>"
  from assms(1) obtain stage2 ctx2 where
    r: "probes_loop cfg probes (- 1) ctx0 = Inr (False, stage2, ctx2)"
    and c: "ctx1 = ctx2\<lparr>trigger_stage := (if stage2 = - 1 then TRIGGER_FIRED else 0)\<rparr>"
    by (auto simp: configure_probes_def Let_def ctx0_def [symmetric]
          split: sum.splits prod.splits bool.splits)
  from probes_loop_lengths [OF r] show ?thesis
    using assms(2,3) by (simp add: c context_ok_def ctx0_def TRIGGER_FIRED_def)
qed

section \<open>Lemmas on opening a device\<close>

lemma sr_dev_inst_get_Some:
  "sr_dev_inst_get l i = Some k \<Longrightarrow> k < length l \<and> index (l ! k) = i"
  by (induction l arbitrary: k) (auto split: if_splits)

lemma sl_open_dev_failed:
  "sl_open_dev dl i w = (e, w1) \<Longrightarrow> e \<noteq> SR_OK \<Longrightarrow> w1 = w"
  by (auto simp: sl_open_dev_def Let_def split: option.splits if_splits prod.splits)

lemma sl_scan_Some:
  "sl_scan st i ctx dl i0 skip = Some (j, d) \<Longrightarrow>
     i0 \<le> j \<and> j - i0 < length dl \<and> d = dl ! (j - i0)
     \<and> descriptor d = Some (fw_vid (profile ctx), fw_pid (profile ctx))"
proof (induction dl arbitrary: i0 skip)
  case Nil
  then show ?case by simp
next
  case (Cons d0 ds)
  have rec: "i0 \<le> j \<and> j - i0 < length (d0 # ds) \<and> d = (d0 # ds) ! (j - i0)
     \<and> descriptor d = Some (fw_vid (profile ctx), fw_pid (profile ctx))"
    if "sl_scan st i ctx ds (i0 + 1) sk = Some (j, d)" for sk
  proof -
    from Cons.IH [OF that] have a: "i0 + 1 \<le> j" "j - (i0 + 1) < length ds"
      "d = ds ! (j - (i0 + 1))"
      "descriptor d = Some (fw_vid (profile ctx), fw_pid (profile ctx))" by auto
    from a(1) have "j - i0 = Suc (j - (i0 + 1))" by simp
    with a show ?thesis by simp
  qed
  show ?case
  proof (cases "descriptor d0")
    case None
    then show ?thesis using Cons.prems rec by simp
  next
    case (Some vp)
    obtain vid pid where vp: "vp = (vid, pid)" by (cases vp)
    show ?thesis
      using Cons.prems Some vp rec by (auto split: if_splits)
  qed
qed

lemma sl_open_dev_ok:
  assumes "sl_open_dev dl i w = (SR_OK, w1)"
  shows "\<exists>k j. sr_dev_inst_get (dev_insts w) i = Some k
        \<and> status (dev_insts w ! k) \<noteq> SR_ST_ACTIVE
        \<and> sl_scan (status (dev_insts w ! k)) i (contexts w (priv (dev_insts w ! k))) dl 0 0
             = Some (j, dl ! j)
        \<and> j < length dl \<and> open_ok (dl ! j)
        \<and> descriptor (dl ! j) = Some (fw_vid (profile (contexts w (priv (dev_insts w ! k)))),
                                        fw_pid (profile (contexts w (priv (dev_insts w ! k)))))
        \<and> w1 = opened k j (device_address (dl ! j)) w"
proof -
  from assms obtain k where k: "sr_dev_inst_get (dev_insts w) i = Some k"
    by (cases "sr_dev_inst_get (dev_insts w) i") (auto simp: sl_open_dev_def)
  let ?sdi = "dev_insts w ! k"
  let ?ctx = "contexts w (priv ?sdi)"
  have na: "status ?sdi \<noteq> SR_ST_ACTIVE"
    using assms k by (auto simp: sl_open_dev_def Let_def)
  from assms k na obtain j d where s: "sl_scan (status ?sdi) i ?ctx dl 0 0 = Some (j, d)"
    by (cases "sl_scan (status ?sdi) i ?ctx dl 0 0") (auto simp: sl_open_dev_def Let_def)
  from sl_scan_Some [OF s] have d: "j < length dl" "d = dl ! j"
    "descriptor d = Some (fw_vid (profile ?ctx), fw_pid (profile ?ctx))" by auto
  have o: "open_ok d" using assms k na s by (auto simp: sl_open_dev_def Let_def split: if_splits)
  then have "w1 = opened k j (device_address d) w"
    using assms k na s by (auto simp: sl_open_dev_def opened_def Let_def set_ctx_def)
  with k na s d o show ?thesis by blast
qed

lemma renum_loop_ok:
  "renum_loop cfg i p rs err td w = Some (SR_OK, w1) \<Longrightarrow>
     (err = SR_OK \<and> \<not> td < MAX_RENUM_DELAY cfg \<and> w1 = w)
     \<or> (\<exists>n < length rs. sl_open_dev (fst (rs ! n)) i w = (SR_OK, w1)
           \<and> (\<forall>m < n. fst (sl_open_dev (fst (rs ! m)) i w) \<noteq> SR_OK))"
proof (induction rs arbitrary: err td)
  case Nil
  then show ?case by (simp split: if_splits)
next
  case (Cons r rs)
  obtain dl cur_time where r: "r = (dl, cur_time)" by (cases r)
  obtain e1 w2 where o: "sl_open_dev dl i w = (e1, w2)" by (cases "sl_open_dev dl i w")
  show ?case
  proof (cases "td < MAX_RENUM_DELAY cfg")
    case False
    then show ?thesis using Cons.prems r by simp
  next
    case True
    show ?thesis
    proof (cases "e1 = SR_OK")
      case True
      then have "sl_open_dev (fst ((r # rs) ! 0)) i w = (SR_OK, w1)"
        using Cons.prems r o \<open>td < MAX_RENUM_DELAY cfg\<close> by auto
      then show ?thesis by auto
    next
      case False
      then have w2: "w2 = w" using sl_open_dev_failed [OF o] by simp
      have "renum_loop cfg i p rs e1 (cur_time - fw_updated (contexts w p)) w = Some (SR_OK, w1)"
        using Cons.prems r o False True w2 by simp
      from Cons.IH [OF this] False obtain n where n: "n < length rs"
        "sl_open_dev (fst (rs ! n)) i w = (SR_OK, w1)"
        "\<forall>m < n. fst (sl_open_dev (fst (rs ! m)) i w) \<noteq> SR_OK" by auto
      have "\<forall>m < Suc n. fst (sl_open_dev (fst ((r # rs) ! m)) i w) \<noteq> SR_OK"
      proof (intro allI impI)
        fix m assume "m < Suc n"
        then show "fst (sl_open_dev (fst ((r # rs) ! m)) i w) \<noteq> SR_OK"
          using n(3) r o False by (cases m) auto
      qed
      moreover have "Suc n < length (r # rs)" using n(1) by simp
      moreover have "sl_open_dev (fst ((r # rs) ! Suc n)) i w = (SR_OK, w1)" using n(2) by simp
      ultimately show ?thesis by blast
    qed
  qed
qed

lemma sr_dev_inst_get_status:
  "sr_dev_inst_get (l[k := (l ! k)\<lparr>status := s\<rparr>]) i = sr_dev_inst_get l i"
proof (induction l arbitrary: k)
  case Nil
  then show ?case by simp
next
  case (Cons a l)
  show ?case by (cases k) (simp_all add: Cons.IH)
qed

lemma opened_fields:
  assumes "k < length (dev_insts w)"
  shows "priv (dev_insts (opened k j a w) ! k) = priv (dev_insts w ! k)"
    and "status (dev_insts (opened k j a w) ! k) = SR_ST_ACTIVE"
    and "dev_insts (opened k j a w) = (dev_insts w)[k := (dev_insts w ! k)\<lparr>status := SR_ST_ACTIVE\<rparr>]"
    and "contexts (opened k j a w) =
          (contexts w)(priv (dev_insts w ! k) :=
             (contexts w (priv (dev_insts w ! k)))
               \<lparr>usb := (usb (contexts w (priv (dev_insts w ! k))))
                   \<lparr>devhdl := Some j,
                    address := (if address (usb (contexts w (priv (dev_insts w ! k)))) = 0xff
                                then a else address (usb (contexts w (priv (dev_insts w ! k)))))\<rparr>\<rparr>)"
    and "num_samples (opened k j a w) = num_samples w"
    and "empty_transfer_count (opened k j a w) = empty_transfer_count w"
    and "new_saleae_logic_firmware (opened k j a w) = new_saleae_logic_firmware w"
    and "sent (opened k j a w) = sent w"
    and "usb_log (opened k j a w) = usb_log w"
  using assms by (simp_all add: opened_def Let_def)

lemma hw_dev_open_ok:
  assumes ok: "hw_dev_open cfg env i w = Some (SR_OK, w1)"
    and delay: "0 < MAX_RENUM_DELAY cfg"
  shows "\<exists>k j dl. sr_dev_inst_get (dev_insts w) i = Some k
      \<and> status (dev_insts w ! k) \<noteq> SR_ST_ACTIVE
      \<and> (if 0 < fw_updated (contexts w (priv (dev_insts w ! k)))
          then \<exists>n < length (rounds env). dl = fst (rounds env ! n)
                 \<and> (\<forall>m < n. fst (sl_open_dev (fst (rounds env ! m)) i w) \<noteq> SR_OK)
          else dl = devlist env)
      \<and> sl_scan (status (dev_insts w ! k)) i (contexts w (priv (dev_insts w ! k))) dl 0 0
           = Some (j, dl ! j)
      \<and> j < length dl \<and> open_ok (dl ! j)
      \<and> descriptor (dl ! j) = Some (fw_vid (profile (contexts w (priv (dev_insts w ! k)))),
                                      fw_pid (profile (contexts w (priv (dev_insts w ! k)))))
      \<and> w1 = (if cur_samplerate (contexts w (priv (dev_insts w ! k))) = 0
              then set_ctx (priv (dev_insts w ! k))
                  ((contexts (opened k j (device_address (dl ! j)) w) (priv (dev_insts w ! k)))
                     \<lparr>cur_samplerate := 200000\<rparr>)
                  (usb_do (Bulk_out (Some j)
                       [if new_saleae_logic_firmware w then 0xd5 else 0x01,
                        if new_saleae_logic_firmware w then 0x4e else 0xef])
                     (usb_do (Claim_interface (Some j))
                        (opened k j (device_address (dl ! j)) w)))
              else usb_do (Claim_interface (Some j)) (opened k j (device_address (dl ! j)) w))"
proof -
  from ok obtain k where k: "sr_dev_inst_get (dev_insts w) i = Some k"
    by (cases "sr_dev_inst_get (dev_insts w) i") (auto simp: hw_dev_open_def)
  let ?p = "priv (dev_insts w ! k)"
  define ctx where "ctx = contexts w ?p"
  define first where "first = (if fw_updated ctx > 0
      then renum_loop cfg i ?p (rounds env) SR_OK 0 w
      else Some (sl_open_dev (devlist env) i w))"
  from ok k obtain err wA where f: "first = Some (err, wA)"
    by (cases first) (auto simp: hw_dev_open_def Let_def first_def ctx_def)
  have e: "err = SR_OK"
    using ok k f by (auto simp: hw_dev_open_def Let_def first_def [symmetric] ctx_def [symmetric]
                      split: if_splits)
  have "\<exists>dl. sl_open_dev dl i w = (SR_OK, wA)
      \<and> (if 0 < fw_updated ctx
          then \<exists>n < length (rounds env). dl = fst (rounds env ! n)
                 \<and> (\<forall>m < n. fst (sl_open_dev (fst (rounds env ! m)) i w) \<noteq> SR_OK)
          else dl = devlist env)"
  proof (cases "fw_updated ctx > 0")
    case True
    then have "renum_loop cfg i ?p (rounds env) SR_OK 0 w = Some (SR_OK, wA)"
      using f e by (simp add: first_def)
    from renum_loop_ok [OF this] delay obtain n where "n < length (rounds env)"
      "sl_open_dev (fst (rounds env ! n)) i w = (SR_OK, wA)"
      "\<forall>m < n. fst (sl_open_dev (fst (rounds env ! m)) i w) \<noteq> SR_OK" by auto
    with True show ?thesis by auto
  next
    case False
    then show ?thesis using f e by (auto simp: first_def)
  qed
  then obtain dl where dl: "sl_open_dev dl i w = (SR_OK, wA)"
    and src: "if 0 < fw_updated ctx
          then \<exists>n < length (rounds env). dl = fst (rounds env ! n)
                 \<and> (\<forall>m < n. fst (sl_open_dev (fst (rounds env ! m)) i w) \<noteq> SR_OK)
          else dl = devlist env" by blast
  from sl_open_dev_ok [OF dl] k obtain j where
    na: "status (dev_insts w ! k) \<noteq> SR_ST_ACTIVE"
    and scan: "sl_scan (status (dev_insts w ! k)) i (contexts w ?p) dl 0 0 = Some (j, dl ! j)"
    and jl: "j < length dl" "open_ok (dl ! j)"
      "descriptor (dl ! j) = Some (fw_vid (profile (contexts w ?p)), fw_pid (profile (contexts w ?p)))"
    and wA: "wA = opened k j (device_address (dl ! j)) w" by auto
  define a where "a = device_address (dl ! j)"
  have kl: "k < length (dev_insts w)" using sr_dev_inst_get_Some [OF k] by simp
  note of = opened_fields [OF kl, of j a]
  define wB where "wB = usb_do (Claim_interface (Some j)) wA"
  have cA: "contexts wA ?p = ctx\<lparr>usb := (usb ctx)
                   \<lparr>devhdl := Some j,
                    address := (if address (usb ctx) = 0xff then a else address (usb ctx))\<rparr>\<rparr>"
    by (simp add: wA a_def [symmetric] of ctx_def)
  have rest: "(if \<not> claim_ok env then Some (SR_ERR, wB)
         else if cur_samplerate ctx = 0 then
           (case hw_dev_config_set cfg (rate_bulk_ok env) i
                   (SR_HWCAP_SAMPLERATE (supported_samplerates ! 0)) wB of
              None \<Rightarrow> None
            | Some (ret, w3) \<Rightarrow> if ret = SR_ERR then Some (SR_ERR, w3) else Some (SR_OK, w3))
         else Some (SR_OK, wB)) = Some (SR_OK, w1)"
    using ok k f e cA
    by (auto simp: hw_dev_open_def Let_def first_def [symmetric] ctx_def [symmetric] wB_def
          split: if_splits)
  have "w1 = (if cur_samplerate ctx = 0
              then set_ctx ?p ((contexts (opened k j a w) ?p)\<lparr>cur_samplerate := 200000\<rparr>)
                  (usb_do (Bulk_out (Some j)
                       [if new_saleae_logic_firmware w then 0xd5 else 0x01,
                        if new_saleae_logic_firmware w then 0x4e else 0xef])
                     (usb_do (Claim_interface (Some j)) (opened k j a w)))
              else usb_do (Claim_interface (Some j)) (opened k j a w))"
  proof (cases "cur_samplerate ctx = 0")
    case False
    then have "w1 = wB" using rest by (auto split: if_splits)
    then show ?thesis using False by (simp add: wB_def wA a_def)
  next
    case True
    have kB: "sr_dev_inst_get (dev_insts wB) i = Some k"
      by (simp add: wB_def wA a_def [symmetric] of sr_dev_inst_get_status k)
    have pB: "priv (dev_insts wB ! k) = ?p" using kl by (simp add: wB_def wA a_def [symmetric] of)
    have fB: "new_saleae_logic_firmware wB = new_saleae_logic_firmware w"
      by (simp add: wB_def wA a_def [symmetric] of)
    have s0: "supported_samplerates ! 0 = 200000" by (simp add: supported_samplerates_def)
    have scan0: "samplerate_scan supported_samplerates 200000 \<noteq> 0"
      by (simp add: supported_samplerates_def)
    have d: "(if new_saleae_logic_firmware wB then Some (new_firmware_divider_value 200000)
             else legacy_divider_value 200000)
          = Some (if new_saleae_logic_firmware w then 0x4e else 0xef)"
      by (simp add: fB legacy_200k)
    have cs: "hw_dev_config_set cfg (rate_bulk_ok env) i (SR_HWCAP_SAMPLERATE 200000) wB
        = (if \<not> rate_bulk_ok env
           then Some (SR_ERR, usb_do (Bulk_out (devhdl (usb (contexts wB ?p)))
                   [if new_saleae_logic_firmware w then 0xd5 else 0x01,
                    if new_saleae_logic_firmware w then 0x4e else 0xef]) wB)
           else Some (SR_OK, set_ctx ?p ((contexts wB ?p)\<lparr>cur_samplerate := 200000\<rparr>)
                  (usb_do (Bulk_out (devhdl (usb (contexts wB ?p)))
                   [if new_saleae_logic_firmware w then 0xd5 else 0x01,
                    if new_saleae_logic_firmware w then 0x4e else 0xef]) wB)))"
      using scan0 d by (simp add: hw_dev_config_set_def kB pB set_samplerate_def Let_def fB)
    have hB1: "devhdl (usb (contexts wB ?p)) = Some j" using cA by (simp add: wB_def)
    have hB2: "contexts wB ?p = contexts (opened k j a w) ?p" by (simp add: wB_def wA a_def)
    have hB3: "devhdl (usb (contexts (opened k j a w) ?p)) = Some j" using hB1 hB2 by simp
    note hB = hB2 hB3
    have "w1 = set_ctx ?p ((contexts (opened k j a w) ?p)\<lparr>cur_samplerate := 200000\<rparr>)
                  (usb_do (Bulk_out (Some j)
                     [if new_saleae_logic_firmware w then 0xd5 else 0x01,
                      if new_saleae_logic_firmware w then 0x4e else 0xef]) wB)"
      using rest True by (auto simp: s0 cs hB split: if_splits)
    then show ?thesis using True by (simp add: wB_def wA a_def)
  qed
  with k na src scan jl show ?thesis unfolding a_def ctx_def by blast
qed

section \<open>The claims\<close>

subsection \<open>C1: scenario B, the trigger \<open>01\<close> inside one transfer\<close>

text \<open>
  Claim C1 expects, for probe 1 with the trigger \<open>01\<close>, no sample limit and one transfer
  of the bytes \<open>00 00 01 FF FF FF FF FF\<close>, the packets TRIGGER, LOGIC of length 2 with
  \<open>{00, 01}\<close> and LOGIC of length 5. The callback does something else: the first byte
  matches stage 0, the stage becomes 1, and since the trigger is not complete the function
  returns. The seven bytes that follow are not looked at and nothing is sent: after the
  transfer the trace holds the HEADER of the start alone, \<^verbatim>\<open>trigger_stage\<close> is 1 and
  \<^verbatim>\<open>num_samples\<close> is 0.
\<close>

theorem C1_first_match_ends_the_callback:
  "map_option (\<lambda>w. (packets (sent w), trigger_stage (contexts w 0), num_samples w))
     (run scenario_tunables
        [Dev_open open_ok_env 0,
         Dev_config_set True 0 (SR_HWCAP_SAMPLERATE 4000000),
         Dev_config_set True 0 (SR_HWCAP_PROBECONFIG (probe_1 ''01'')),
         Acquisition_start start_ok_env 0 0,
         Transfer_done (completed [0x00, 0x00, 0x01, 0xff, 0xff, 0xff, 0xff, 0xff])]
        fresh_world)
   = Some ([SR_DF_HEADER \<lparr>feed_version = 1, starttime = 1000, header_samplerate = 4000000,
                           num_logic_probes = 8\<rparr>], 1, 0)"
  by (simp add: scenario_defs driver_defs legacy_200k legacy_4m trigger_loop.simps)

subsection \<open>C2: END packets and the idempotence of the stop\<close>

text \<open>
  Claim C2 says that an acquisition emits exactly one END packet and that a second call
  of \<^verbatim>\<open>hw_dev_acquisition_stop\<close> emits nothing. The function has no guard: it sends END on
  each call. Here the watchdog of \<^verbatim>\<open>receive_transfer\<close> stops the acquisition after four empty
  transfers, and the stop that the frontend then calls sends END again.
\<close>

theorem C2_second_end_packet:
  "map_option (packets \<circ> sent)
     (run scenario_tunables
        [Dev_open open_ok_env 0,
         Acquisition_start start_ok_env 0 0,
         Transfer_done (completed []), Transfer_done (completed []),
         Transfer_done (completed []), Transfer_done (completed []),
         Acquisition_stop 0 0]
        fresh_world)
   = Some [SR_DF_HEADER \<lparr>feed_version = 1, starttime = 1000, header_samplerate = 200000,
                          num_logic_probes = 8\<rparr>,
           SR_DF_END, SR_DF_END]"
  by (simp add: scenario_defs driver_defs legacy_200k)

text \<open>
  Claim C2, amended. Every call of \<^verbatim>\<open>hw_dev_acquisition_stop\<close> appends exactly one END
  packet to the trace and sets the kill switch; the transfers that complete after it emit
  nothing, so that END stays the last packet for as long as only completions follow. A
  second call leaves the state as the first one left it, except for the trace, which
  receives a second END.
\<close>

theorem C2_stop_emits_one_end_each_call:
  "sent (snd (hw_dev_acquisition_stop i sd w)) = sent w @ [(sd, SR_DF_END)]
   \<and> num_samples (snd (hw_dev_acquisition_stop i sd w)) = - 1
   \<and> (\<forall>ts. \<exists>w1. completions cfg ts (snd (hw_dev_acquisition_stop i sd w)) = Some w1
          \<and> sent w1 = sent w @ [(sd, SR_DF_END)])
   \<and> snd (hw_dev_acquisition_stop j sd2 (snd (hw_dev_acquisition_stop i sd w)))
       = (snd (hw_dev_acquisition_stop i sd w))
           \<lparr>sent := sent w @ [(sd, SR_DF_END), (sd2, SR_DF_END)]\<rparr>"
proof (intro conjI allI)
  fix ts
  have k: "num_samples (snd (hw_dev_acquisition_stop i sd w)) = - 1" by simp
  from killed_completions [OF k, of cfg ts]
  show "\<exists>w1. completions cfg ts (snd (hw_dev_acquisition_stop i sd w)) = Some w1
          \<and> sent w1 = sent w @ [(sd, SR_DF_END)]" by auto
qed (simp_all add: hw_dev_acquisition_stop_def receive_transfer_NULL_def sr_session_send_def)

subsection \<open>C3: the rate encoder\<close>

text \<open>
  Claim C3. On each of the ten supported rates (the entries of \<^verbatim>\<open>supported_samplerates\<close>
  before the terminating zero) the rate is accepted and the divider is defined: the legacy
  branch, computed in \<^verbatim>\<open>double\<close> as the code does, gives \<open>floor (48 / rate_MHz) - 1\<close>, and
  \<^verbatim>\<open>set_samplerate\<close> sends the command byte and the divider of the firmware generation and
  records the rate. The new firmware's dividers are the values of the table
  (24 MHz \<open>0xE0\<close>, 16 MHz \<open>0xD5\<close>, 12 MHz \<open>0xE2\<close>, 8 MHz \<open>0xD4\<close>, 4 MHz \<open>0xDA\<close>, 2 MHz \<open>0xE6\<close>,
  1 MHz \<open>0x8E\<close>, 500 kHz \<open>0xFE\<close>, 250 kHz \<open>0x9E\<close>, 200 kHz \<open>0x4E\<close>); the legacy divider is
  \<open>0x01\<close> for 24 MHz and \<open>0xEF\<close> for 200 kHz.
\<close>

theorem C3_rate_encoder:
  "(\<forall>r \<in> set supported_samplerates. r \<noteq> 0 \<longrightarrow>
       samplerate_scan supported_samplerates r = r
       \<and> legacy_divider_value r = Some (word_of_int (\<lfloor>48 / (rat_of_nat r / 1000000)\<rfloor> - 1))
       \<and> (\<forall>sdi w. set_samplerate True sdi r w =
             Some (SR_OK,
               set_ctx (priv sdi) ((contexts w (priv sdi))\<lparr>cur_samplerate := r\<rparr>)
                 (usb_do (Bulk_out (devhdl (usb (contexts w (priv sdi))))
                    (if new_saleae_logic_firmware w then [0xd5, new_firmware_divider_value r]
                     else [0x01, word_of_int (\<lfloor>48 / (rat_of_nat r / 1000000)\<rfloor> - 1)])) w))))
   \<and> set supported_samplerates - {0}
        = {200000, 250000, 500000, 1000000, 2000000, 4000000, 8000000, 12000000, 16000000,
           24000000}
   \<and> map new_firmware_divider_value
         [24000000, 16000000, 12000000, 8000000, 4000000, 2000000, 1000000, 500000, 250000,
          200000]
        = [0xe0, 0xd5, 0xe2, 0xd4, 0xda, 0xe6, 0x8e, 0xfe, 0x9e, 0x4e]
   \<and> legacy_divider_value 24000000 = Some 0x01
   \<and> legacy_divider_value 200000 = Some 0xef"
proof -
  have legacy: "\<forall>r \<in> set supported_samplerates. r \<noteq> 0 \<longrightarrow>
       legacy_divider_value r = Some (word_of_int (\<lfloor>48 / (rat_of_nat r / 1000000)\<rfloor> - 1))"
    by (simp add: supported_samplerates_def double_defs)
  have scan: "\<forall>r \<in> set supported_samplerates. r \<noteq> 0 \<longrightarrow>
       samplerate_scan supported_samplerates r = r"
    by (simp add: supported_samplerates_def)
  have send: "\<forall>sdi w. set_samplerate True sdi r w =
             Some (SR_OK,
               set_ctx (priv sdi) ((contexts w (priv sdi))\<lparr>cur_samplerate := r\<rparr>)
                 (usb_do (Bulk_out (devhdl (usb (contexts w (priv sdi))))
                    (if new_saleae_logic_firmware w then [0xd5, new_firmware_divider_value r]
                     else [0x01, word_of_int (\<lfloor>48 / (rat_of_nat r / 1000000)\<rfloor> - 1)])) w))"
    if "r \<in> set supported_samplerates" "r \<noteq> 0" for r
  proof -
    have "samplerate_scan supported_samplerates r \<noteq> 0" using scan that by simp
    moreover have "legacy_divider_value r
        = Some (word_of_int (\<lfloor>48 / (rat_of_nat r / 1000000)\<rfloor> - 1))"
      using legacy that by blast
    ultimately show ?thesis by (simp add: set_samplerate_def Let_def)
  qed
  have s: "set supported_samplerates - {0}
        = {200000, 250000, 500000, 1000000, 2000000, 4000000, 8000000, 12000000, 16000000,
           24000000}"
    by (auto simp: supported_samplerates_def)
  have new: "map new_firmware_divider_value
         [24000000, 16000000, 12000000, 8000000, 4000000, 2000000, 1000000, 500000, 250000,
          200000]
        = [0xe0, 0xd5, 0xe2, 0xd4, 0xda, 0xe6, 0x8e, 0xfe, 0x9e, 0x4e]"
    by simp
  have l24: "legacy_divider_value 24000000 = Some 0x01" by (simp add: double_defs)
  show ?thesis using legacy scan send s new l24 legacy_200k by blast
qed

text \<open>The theorem at 8 MHz, on the device of the scenarios (old firmware): divider 5.\<close>

theorem C3_rate_encoder_witness:
  "8000000 \<in> set supported_samplerates \<and> (8000000 :: nat) \<noteq> 0
   \<and> legacy_divider_value 8000000 = Some 5
   \<and> new_firmware_divider_value 8000000 = 0xd4
   \<and> set_samplerate True (dev_insts fresh_world ! 0) 8000000 fresh_world
       = Some (SR_OK, set_ctx 0 (fresh_context\<lparr>cur_samplerate := 8000000\<rparr>)
                        (usb_do (Bulk_out None [0x01, 5]) fresh_world))"
proof -
  have m: "8000000 \<in> set supported_samplerates" "(8000000 :: nat) \<noteq> 0"
    by (simp_all add: supported_samplerates_def)
  have f: "word_of_int (\<lfloor>48 / (rat_of_nat 8000000 / 1000000)\<rfloor> - 1) = (5 :: byte)" by simp
  from C3_rate_encoder m
  have "legacy_divider_value 8000000
          = Some (word_of_int (\<lfloor>48 / (rat_of_nat 8000000 / 1000000)\<rfloor> - 1))"
    and "set_samplerate True (dev_insts fresh_world ! 0) 8000000 fresh_world =
             Some (SR_OK,
               set_ctx (priv (dev_insts fresh_world ! 0))
                 ((contexts fresh_world (priv (dev_insts fresh_world ! 0)))
                    \<lparr>cur_samplerate := 8000000\<rparr>)
                 (usb_do (Bulk_out (devhdl (usb (contexts fresh_world
                                                  (priv (dev_insts fresh_world ! 0)))))
                    (if new_saleae_logic_firmware fresh_world
                     then [0xd5, new_firmware_divider_value 8000000]
                     else [0x01, word_of_int (\<lfloor>48 / (rat_of_nat 8000000 / 1000000)\<rfloor> - 1)]))
                  fresh_world))"
    by blast+
  then show ?thesis using m unfolding f by (simp add: fresh_world_def fresh_context_def)
qed

subsection \<open>C4: the bytes sent under a sample limit\<close>

text \<open>
  Claim C4 bounds the LOGIC bytes of an acquisition with a sample limit by the limit plus
  one transfer of 4096 bytes. \<^verbatim>\<open>num_samples\<close> counts the bytes of the transfers that were
  passed on, not the bytes of the packets: the packet with \<^verbatim>\<open>trigger_buffer\<close> is sent on top,
  and it holds samples of earlier transfers. With the trigger \<open>01\<close> and a limit of 4096:
  the \<open>0\<close> arrives in a transfer of its own, the \<open>1\<close> opens a full transfer (2 bytes of
  trigger buffer and 4095 bytes are sent, \<^verbatim>\<open>num_samples = 4096\<close>, not above the limit), and
  one more full transfer is passed on before the engine stops: 8193 bytes, one more than
  the limit plus 4096.
\<close>

theorem C4_trigger_buffer_exceeds_the_bound:
  "map_option (packets \<circ> sent)
     (run scenario_tunables
        [Dev_open open_ok_env 0,
         Dev_config_set True 0 (SR_HWCAP_PROBECONFIG (probe_1 ''01'')),
         Dev_config_set True 0 (SR_HWCAP_LIMIT_SAMPLES 4096),
         Acquisition_start start_ok_env 0 0,
         Transfer_done (completed [0]),
         Transfer_done (completed (1 # replicate 4095 0)),
         Transfer_done (completed (replicate 4096 0))]
        fresh_world)
   = Some [SR_DF_HEADER \<lparr>feed_version = 1, starttime = 1000, header_samplerate = 200000,
                          num_logic_probes = 8\<rparr>,
           SR_DF_TRIGGER,
           SR_DF_LOGIC 1 2 [0, 1],
           SR_DF_LOGIC 1 4095 (replicate 4095 0),
           SR_DF_LOGIC 1 4096 (replicate 4096 0),
           SR_DF_END]
   \<and> map_option (logic_bytes \<circ> sent)
     (run scenario_tunables
        [Dev_open open_ok_env 0,
         Dev_config_set True 0 (SR_HWCAP_PROBECONFIG (probe_1 ''01'')),
         Dev_config_set True 0 (SR_HWCAP_LIMIT_SAMPLES 4096),
         Acquisition_start start_ok_env 0 0,
         Transfer_done (completed [0]),
         Transfer_done (completed (1 # replicate 4095 0)),
         Transfer_done (completed (replicate 4096 0))]
        fresh_world)
     = Some 8193
   \<and> \<not> (8193 :: int) \<le> 4096 + 4096"
proof -
  have r4: "replicate 4 (0 :: byte) = [0, 0, 0, 0]" by (simp add: numeral_eq_Suc)
  show ?thesis
    by (simp add: scenario_defs driver_defs legacy_200k trigger_loop.simps r4
          del: replicate_numeral)
qed

text \<open>
  Claim C4, amended. When an acquisition begins (\<^verbatim>\<open>num_samples\<close> is 0 in the first
  acquisition of a process and \<open>-1\<close> in every later one), on a context in order with a
  sample limit above zero and small enough for the \<^verbatim>\<open>int\<close> counter (limit + 4096 below
  \<open>2^31\<close>), with transfers of at most 4096 bytes: every completion returns, and the lengths
  of the LOGIC packets sent add up to at most the limit plus 4096 plus
  \<^verbatim>\<open>NUM_TRIGGER_STAGES - 1\<close>.
\<close>

theorem C4_logic_bytes_bound:
  assumes "1 \<le> NUM_TRIGGER_STAGES cfg"
    and "context_ok cfg (contexts w p)"
    and "0 < limit_samples (contexts w p)"
    and "int (limit_samples (contexts w p)) + 4096 < 2 ^ 31"
    and "num_samples w = 0 \<or> num_samples w = - 1"
    and "\<forall>t \<in> set ts. user_data t = p \<and> length (buffer t) \<le> 4096"
  shows "\<exists>w1. completions cfg ts w = Some w1 \<and>
           logic_bytes (sent w1) - logic_bytes (sent w)
             \<le> int (limit_samples (contexts w p)) + 4096 + int (NUM_TRIGGER_STAGES cfg) - 1"
proof -
  have "acq_inv cfg p (logic_bytes (sent w)) w"
    using assms(1,2,3,5) by (auto simp: acq_inv_def Let_def)
  from completions_inv [OF this assms(3,4,1,6)]
  obtain w1 where w1: "completions cfg ts w = Some w1"
    "acq_inv cfg p (logic_bytes (sent w)) w1"
    "limit_samples (contexts w1 p) = limit_samples (contexts w p)" by blast
  have "logic_bytes (sent w1) - logic_bytes (sent w)
             \<le> int (limit_samples (contexts w p)) + 4096 + int (NUM_TRIGGER_STAGES cfg) - 1"
    using w1(2,3) by (auto simp: acq_inv_def Let_def split: if_splits)
  with w1(1) show ?thesis by blast
qed

text \<open>
  The theorem on the device of the scenarios with a limit of 4 samples and no trigger:
  two transfers, of 3 and 2 bytes.
\<close>

theorem C4_logic_bytes_bound_witness:
  "\<exists>w1. completions scenario_tunables [completed [1, 2, 3], completed [4, 5]]
           (set_ctx 0 (fresh_context\<lparr>limit_samples := 4\<rparr>) fresh_world) = Some w1
      \<and> logic_bytes (sent w1) \<le> 4 + 4096 + 4 - 1"
proof -
  let ?w = "set_ctx 0 (fresh_context\<lparr>limit_samples := 4\<rparr>) fresh_world"
  have h: "1 \<le> NUM_TRIGGER_STAGES scenario_tunables"
    "context_ok scenario_tunables (contexts ?w 0)"
    "0 < limit_samples (contexts ?w 0)"
    "int (limit_samples (contexts ?w 0)) + 4096 < 2 ^ 31"
    "num_samples ?w = 0 \<or> num_samples ?w = - 1"
    "\<forall>t \<in> set [completed [1, 2, 3], completed [4, 5]].
        user_data t = 0 \<and> length (buffer t) \<le> 4096"
    by (simp_all add: scenario_defs context_ok_def TRIGGER_FIRED_def)
  from C4_logic_bytes_bound [OF h]
  show ?thesis by (simp add: scenario_defs)
qed

subsection \<open>C5: the empty-transfer watchdog\<close>

text \<open>
  Claim C5. In the completion callback, when the kill switch is not set and the new buffer
  was allocated: a completion with \<^verbatim>\<open>cur_len == 0\<close> increments the empty-transfer counter
  and calls \<^verbatim>\<open>hw_dev_acquisition_stop\<close> exactly when the counter then exceeds
  \<^verbatim>\<open>MAX_EMPTY_TRANSFERS\<close> (otherwise it sends nothing and leaves the kill switch alone); a
  completion with \<^verbatim>\<open>cur_len > 0\<close> (on a context in order, with \<^verbatim>\<open>num_samples\<close> not about to
  overflow, so that the callback has a defined result) resets the counter to zero.
  Consequently, from a counter of zero, \<^verbatim>\<open>MAX_EMPTY_TRANSFERS\<close> empty completions in a row
  emit nothing, the next one emits END, and whatever completes after that emits nothing:
  with \<^verbatim>\<open>MAX_EMPTY_TRANSFERS = 3\<close>, END comes with the fourth.
\<close>

theorem C5_empty_transfer_watchdog:
  "(num_samples w \<noteq> - 1 \<and> malloc_ok t \<and> buffer t = [] \<longrightarrow>
    (\<exists>w1. receive_transfer cfg (Some t) w = Some w1 \<and>
       empty_transfer_count w1 = empty_transfer_count w + 1 \<and>
       (if empty_transfer_count w + 1 > MAX_EMPTY_TRANSFERS cfg
        then w1 = snd (hw_dev_acquisition_stop (- 1) (session_data (contexts w (user_data t)))
                    ((usb_do (Submit_transfer 4096 (submit_ok t)) w)
                       \<lparr>empty_transfer_count := empty_transfer_count w + 1\<rparr>))
             \<and> sent w1 = sent w @ [(session_data (contexts w (user_data t)), SR_DF_END)]
             \<and> num_samples w1 = - 1
        else sent w1 = sent w \<and> num_samples w1 = num_samples w)))
   \<and>
   (num_samples w \<noteq> - 1 \<and> malloc_ok t \<and> buffer t \<noteq> []
      \<and> context_ok cfg (contexts w (user_data t))
      \<and> num_samples w + int (length (buffer t)) \<le> 2147483647 \<longrightarrow>
    (\<exists>w1. receive_transfer cfg (Some t) w = Some w1 \<and> empty_transfer_count w1 = 0))
   \<and>
   (num_samples w \<noteq> - 1 \<and> empty_transfer_count w = 0 \<and> 0 \<le> MAX_EMPTY_TRANSFERS cfg
      \<and> length ts = nat (MAX_EMPTY_TRANSFERS cfg) + 1
      \<and> (\<forall>t \<in> set ts. buffer t = [] \<and> malloc_ok t) \<longrightarrow>
    (\<exists>w1. completions cfg (butlast ts) w = Some w1 \<and> sent w1 = sent w) \<and>
    (\<forall>more. \<exists>w2. completions cfg (ts @ more) w = Some w2 \<and>
        sent w2 = sent w @ [(session_data (contexts w (user_data (last ts))), SR_DF_END)]))"
proof (intro conjI impI)
  assume a: "num_samples w \<noteq> - 1 \<and> malloc_ok t \<and> buffer t = []"
  then show "\<exists>w1. receive_transfer cfg (Some t) w = Some w1 \<and>
       empty_transfer_count w1 = empty_transfer_count w + 1 \<and>
       (if empty_transfer_count w + 1 > MAX_EMPTY_TRANSFERS cfg
        then w1 = snd (hw_dev_acquisition_stop (- 1) (session_data (contexts w (user_data t)))
                    ((usb_do (Submit_transfer 4096 (submit_ok t)) w)
                       \<lparr>empty_transfer_count := empty_transfer_count w + 1\<rparr>))
             \<and> sent w1 = sent w @ [(session_data (contexts w (user_data t)), SR_DF_END)]
             \<and> num_samples w1 = - 1
        else sent w1 = sent w \<and> num_samples w1 = num_samples w)"
    by (simp add: empty_transfer Let_def)
next
  assume a: "num_samples w \<noteq> - 1 \<and> malloc_ok t \<and> buffer t \<noteq> []
      \<and> context_ok cfg (contexts w (user_data t))
      \<and> num_samples w + int (length (buffer t)) \<le> 2147483647"
  from a receive_transfer_total [of cfg w t]
  obtain w1 where w1: "receive_transfer cfg (Some t) w = Some w1" by auto
  then show "\<exists>w1. receive_transfer cfg (Some t) w = Some w1 \<and> empty_transfer_count w1 = 0"
    using nonempty_resets_count [of w t cfg w1] a by simp
next
  assume b: "num_samples w \<noteq> - 1 \<and> empty_transfer_count w = 0 \<and> 0 \<le> MAX_EMPTY_TRANSFERS cfg
      \<and> length ts = nat (MAX_EMPTY_TRANSFERS cfg) + 1
      \<and> (\<forall>t \<in> set ts. buffer t = [] \<and> malloc_ok t)"
  then have ne: "ts \<noteq> []" by auto
  have bl: "\<forall>t \<in> set (butlast ts). buffer t = [] \<and> malloc_ok t"
    using b by (auto dest: in_set_butlastD)
  have "\<exists>w1. completions cfg (butlast ts) w = Some w1 \<and> sent w1 = sent w
           \<and> num_samples w1 = num_samples w \<and> contexts w1 = contexts w
           \<and> empty_transfer_count w1 = empty_transfer_count w + int (length (butlast ts))"
    using b bl by (intro empty_completions_quiet) simp_all
  then obtain w1 where w1: "completions cfg (butlast ts) w = Some w1" "sent w1 = sent w"
    "num_samples w1 = num_samples w" "contexts w1 = contexts w"
    "empty_transfer_count w1 = MAX_EMPTY_TRANSFERS cfg"
    using b by auto
  show q: "\<exists>w1. completions cfg (butlast ts) w = Some w1 \<and> sent w1 = sent w"
    using w1 by simp
  have lt: "buffer (last ts) = []" "malloc_ok (last ts)" using b ne by auto
  define w2 where "w2 = snd (hw_dev_acquisition_stop (- 1)
      (session_data (contexts w (user_data (last ts))))
      ((usb_do (Submit_transfer 4096 (submit_ok (last ts))) w1)
         \<lparr>empty_transfer_count := empty_transfer_count w1 + 1\<rparr>))"
  have rt: "receive_transfer cfg (Some (last ts)) w1 = Some w2"
    using w1 b by (simp add: empty_transfer lt Let_def w2_def)
  have w2: "num_samples w2 = - 1"
    "sent w2 = sent w @ [(session_data (contexts w (user_data (last ts))), SR_DF_END)]"
    by (simp_all add: w2_def w1)
  have ts: "ts = butlast ts @ [last ts]" using ne by simp
  show "\<forall>more. \<exists>w3. completions cfg (ts @ more) w = Some w3 \<and>
        sent w3 = sent w @ [(session_data (contexts w (user_data (last ts))), SR_DF_END)]"
  proof
    fix more
    from killed_completions [OF w2(1), of cfg more]
    obtain w3 where "completions cfg more w2 = Some w3" "sent w3 = sent w2" by auto
    moreover have "completions cfg (ts @ more) w = completions cfg more w2"
      by (subst ts) (simp add: completions_append w1 rt)
    ultimately show "\<exists>w3. completions cfg (ts @ more) w = Some w3 \<and>
        sent w3 = sent w @ [(session_data (contexts w (user_data (last ts))), SR_DF_END)]"
      using w2 by simp
  qed
qed

text \<open>
  The theorem at the process after \<^verbatim>\<open>hw_init\<close>, with \<^verbatim>\<open>MAX_EMPTY_TRANSFERS = 3\<close>: one empty
  completion counts one; a completion with data resets a counter of two; three empty
  completions emit nothing; four emit END and a fifth completion, with data, adds nothing.
\<close>

theorem C5_empty_transfer_watchdog_witness:
  "(\<exists>w1. receive_transfer scenario_tunables (Some (completed [])) fresh_world = Some w1
       \<and> empty_transfer_count w1 = 1 \<and> sent w1 = [] \<and> num_samples w1 = 0)
   \<and> (\<exists>w1. receive_transfer scenario_tunables (Some (completed [7]))
              (fresh_world\<lparr>empty_transfer_count := 2\<rparr>) = Some w1
         \<and> empty_transfer_count w1 = 0)
   \<and> (\<exists>w1. completions scenario_tunables (replicate 3 (completed [])) fresh_world = Some w1
         \<and> sent w1 = [])
   \<and> (\<exists>w2. completions scenario_tunables (replicate 4 (completed []) @ [completed [1, 2, 3]])
              fresh_world = Some w2 \<and> sent w2 = [(0, SR_DF_END)])"
proof -
  have h1: "num_samples fresh_world \<noteq> - 1 \<and> malloc_ok (completed [])
      \<and> buffer (completed []) = []"
    by (simp add: scenario_defs)
  have h2: "num_samples fresh_world \<noteq> - 1 \<and> empty_transfer_count fresh_world = 0
      \<and> 0 \<le> MAX_EMPTY_TRANSFERS scenario_tunables
      \<and> length (replicate 4 (completed [])) = nat (MAX_EMPTY_TRANSFERS scenario_tunables) + 1
      \<and> (\<forall>t \<in> set (replicate 4 (completed [])). buffer t = [] \<and> malloc_ok t)"
    by (simp add: scenario_defs)
  have b: "butlast (replicate 4 (completed [])) = replicate 3 (completed [])"
    by (simp add: butlast_conv_take)
  note C5 = C5_empty_transfer_watchdog [of fresh_world "completed []" scenario_tunables
      "replicate 4 (completed [])"]
  from C5 h1 have p1: "\<exists>w1. receive_transfer scenario_tunables (Some (completed [])) fresh_world = Some w1
       \<and> empty_transfer_count w1 = 1 \<and> sent w1 = [] \<and> num_samples w1 = 0"
    by (simp add: scenario_defs)
  from C5 h2 have p2: "\<exists>w1. completions scenario_tunables (replicate 3 (completed [])) fresh_world = Some w1
         \<and> sent w1 = []"
    unfolding b by (simp add: scenario_defs)
  from C5 h2 have "\<forall>more. \<exists>w2. completions scenario_tunables (replicate 4 (completed []) @ more)
              fresh_world = Some w2 \<and> sent w2 = sent fresh_world @
       [(session_data (contexts fresh_world (user_data (last (replicate 4 (completed []))))), SR_DF_END)]"
    by blast
  then have p3: "\<exists>w2. completions scenario_tunables (replicate 4 (completed []) @ [completed [1, 2, 3]])
              fresh_world = Some w2 \<and> sent w2 = [(0, SR_DF_END)]"
    by (simp add: scenario_defs)
  have h4: "num_samples (fresh_world\<lparr>empty_transfer_count := 2\<rparr>) \<noteq> - 1
      \<and> malloc_ok (completed [7]) \<and> buffer (completed [7]) \<noteq> []
      \<and> context_ok scenario_tunables
            (contexts (fresh_world\<lparr>empty_transfer_count := 2\<rparr>) (user_data (completed [7])))
      \<and> num_samples (fresh_world\<lparr>empty_transfer_count := 2\<rparr>)
            + int (length (buffer (completed [7]))) \<le> 2147483647"
    by (simp add: scenario_defs context_ok_def TRIGGER_FIRED_def)
  from C5_empty_transfer_watchdog [of "fresh_world\<lparr>empty_transfer_count := 2\<rparr>"
      "completed [7]" scenario_tunables "[]"] h4
  have p4: "\<exists>w1. receive_transfer scenario_tunables (Some (completed [7]))
              (fresh_world\<lparr>empty_transfer_count := 2\<rparr>) = Some w1
         \<and> empty_transfer_count w1 = 0"
    by blast
  from p1 p2 p3 p4 show ?thesis by blast
qed

subsection \<open>C6: scenario C, the trigger \<open>0001\<close> on the samples \<open>00001\<close>\<close>

text \<open>
  Claim C6 expects that the matcher, having rewound after the fourth \<open>0\<close>, fires on the
  \<open>1\<close> with \<^verbatim>\<open>trigger_buffer = {0, 0, 0, 1}\<close>. The callback returns after every match that
  does not complete the trigger, so within a transfer it never goes from one stage to the
  next. With the samples in one transfer, the first \<open>0\<close> moves the stage to 1 and the rest
  is dropped. With one sample per transfer, the fourth \<open>0\<close> fails stage 3, the index is
  set back to the start of that same transfer (the earlier samples are gone), the \<open>0\<close>
  matches stage 0 again, and the \<open>1\<close> then fails stage 1 and stage 0: the trigger does not
  fire, and \<^verbatim>\<open>trigger_buffer\<close> never holds the \<open>1\<close>. (Lemma \<open>rewind_restarts_the_transfer\<close>
  is the general fact: the rewind always lands on index 0 of the transfer at hand, never on
  the sample after the one that matched stage 0.)
\<close>

theorem C6_no_backtracking_within_a_transfer:
  "map_option (\<lambda>w. (packets (sent w), trigger_stage (contexts w 0),
                     trigger_buffer (contexts w 0)))
     (run scenario_tunables
        [Dev_open open_ok_env 0,
         Dev_config_set True 0 (SR_HWCAP_PROBECONFIG (probe_1 ''0001'')),
         Acquisition_start start_ok_env 0 0,
         Transfer_done (completed [0, 0, 0, 0, 1, 0, 0, 0])]
        fresh_world)
   = Some ([SR_DF_HEADER \<lparr>feed_version = 1, starttime = 1000, header_samplerate = 200000,
                           num_logic_probes = 8\<rparr>], 1, [0, 0, 0, 0])
   \<and>
   map_option (\<lambda>w. (packets (sent w), trigger_stage (contexts w 0),
                     trigger_buffer (contexts w 0)))
     (run scenario_tunables
        [Dev_open open_ok_env 0,
         Dev_config_set True 0 (SR_HWCAP_PROBECONFIG (probe_1 ''0001'')),
         Acquisition_start start_ok_env 0 0,
         Transfer_done (completed [0]), Transfer_done (completed [0]),
         Transfer_done (completed [0]), Transfer_done (completed [0]),
         Transfer_done (completed [1])]
        fresh_world)
   = Some ([SR_DF_HEADER \<lparr>feed_version = 1, starttime = 1000, header_samplerate = 200000,
                           num_logic_probes = 8\<rparr>], 0, [0, 0, 0, 0])"
  by (simp add: scenario_defs driver_defs legacy_200k trigger_loop.simps)

subsection \<open>C7: an unsupported rate is rejected without effect\<close>

text \<open>
  Claim C7. For a registered device and every rate that is not one of the ten supported
  rates, \<^verbatim>\<open>hw_dev_config_set\<close> with \<^verbatim>\<open>SR_HWCAP_SAMPLERATE\<close> returns \<^verbatim>\<open>SR_ERR_SAMPLERATE\<close> and
  the process is as it was: \<^verbatim>\<open>cur_samplerate\<close> keeps its value and nothing was sent to the
  device.
\<close>

theorem C7_unsupported_rate_rejected:
  assumes "sr_dev_inst_get (dev_insts w) dev_index = Some k"
    and "samplerate \<notin> set supported_samplerates - {0}"
  shows "hw_dev_config_set cfg bulk_ok dev_index (SR_HWCAP_SAMPLERATE samplerate) w
           = Some (SR_ERR_SAMPLERATE, w)"
  using assms
  by (simp add: hw_dev_config_set_def set_samplerate_def Let_def samplerate_scan_unsupported)

text \<open>The theorem at 3 MHz, on the device of the scenarios.\<close>

theorem C7_unsupported_rate_rejected_witness:
  "sr_dev_inst_get (dev_insts fresh_world) 0 = Some 0
   \<and> 3000000 \<notin> set supported_samplerates - {0}
   \<and> hw_dev_config_set scenario_tunables True 0 (SR_HWCAP_SAMPLERATE 3000000) fresh_world
        = Some (SR_ERR_SAMPLERATE, fresh_world)"
proof -
  have a: "sr_dev_inst_get (dev_insts fresh_world) 0 = Some 0" by (simp add: fresh_world_def)
  have b: "3000000 \<notin> set supported_samplerates - {0}" by (simp add: supported_samplerates_def)
  from C7_unsupported_rate_rejected [OF a b] a b show ?thesis by blast
qed

subsection \<open>C8: what opening and closing a device leave behind\<close>

text \<open>
  Claim C8 says that a successful open followed by close changes nothing but the status,
  which goes from INACTIVE to ACTIVE and back. \<^verbatim>\<open>hw_dev_open\<close> also configures the device:
  when \<^verbatim>\<open>cur_samplerate\<close> is zero it sets the slowest rate, so the device found with
  firmware comes back from open and close with 200 kHz. And for a device that received
  its firmware in \<^verbatim>\<open>hw_init\<close>, \<^verbatim>\<open>sl_open_dev\<close> replaces the address \<open>0xff\<close> by the address
  found on the bus, and the status, \<^verbatim>\<open>SR_ST_INITIALIZING\<close> before, is \<^verbatim>\<open>SR_ST_INACTIVE\<close>
  after.
\<close>

theorem C8_open_sets_rate_and_address:
  "map_option fst (hw_dev_open scenario_tunables open_ok_env 0 fresh_world) = Some SR_OK
   \<and> cur_samplerate (ctx_at 0 fresh_world) = 0
   \<and> map_option (cur_samplerate \<circ> ctx_at 0)
        (run scenario_tunables [Dev_open open_ok_env 0, Dev_close 0] fresh_world) = Some 200000
   \<and> map_option fst (hw_dev_open scenario_tunables renumerated_env 0 uploaded_world) = Some SR_OK
   \<and> address (usb (ctx_at 0 uploaded_world)) = 0xff
   \<and> status_at 0 uploaded_world = SR_ST_INITIALIZING
   \<and> map_option (address \<circ> usb \<circ> ctx_at 0)
        (run scenario_tunables [Dev_open renumerated_env 0, Dev_close 0] uploaded_world) = Some 2
   \<and> map_option (status_at 0)
        (run scenario_tunables [Dev_open renumerated_env 0, Dev_close 0] uploaded_world)
        = Some SR_ST_INACTIVE"
  by (simp add: scenario_defs driver_defs legacy_200k)

text \<open>
  Claim C8, amended. Let \<^verbatim>\<open>MAX_RENUM_DELAY\<close> be positive and \<^verbatim>\<open>hw_dev_open\<close> succeed. The
  device, which was not \<^verbatim>\<open>SR_ST_ACTIVE\<close> before, was found by the scan of \<^verbatim>\<open>sl_open_dev\<close> at
  position \<open>j\<close> of a bus \<open>dl\<close> (the bus of the environment or, after a firmware upload, the
  bus at the first round of the wait at which \<^verbatim>\<open>sl_open_dev\<close> succeeds), where it shows the
  VID and PID that its profile gives for the firmware; after the open it is
  \<^verbatim>\<open>SR_ST_ACTIVE\<close>. \<^verbatim>\<open>hw_dev_close\<close> then succeeds and leaves the process as it was before the
  open except that: the status of the device is \<^verbatim>\<open>SR_ST_INACTIVE\<close>; its handle is null; its
  address, if it was \<open>0xff\<close>, is the address of the device found; its \<^verbatim>\<open>cur_samplerate\<close>, if
  it was zero, is 200 kHz; and libusb has received, in this order, the claim of the
  interface, when the rate was zero the bulk transfer of the two bytes that set 200 kHz,
  the release of the interface and the close of the handle. Everything else (the other
  devices and contexts, the other fields of the context, the static counters, the firmware
  flag, the packets sent) is the same.
\<close>

theorem C8_open_close_frame:
  assumes "0 < MAX_RENUM_DELAY cfg"
    and "hw_dev_open cfg env i w = Some (SR_OK, w1)"
  shows "\<exists>k j dl. sr_dev_inst_get (dev_insts w) i = Some k
     \<and> (let sdi = dev_insts w ! k; p = priv sdi; ctx = contexts w p in
        status sdi \<noteq> SR_ST_ACTIVE
        \<and> (if 0 < fw_updated ctx
            then \<exists>n < length (rounds env). dl = fst (rounds env ! n)
                   \<and> (\<forall>m < n. fst (sl_open_dev (fst (rounds env ! m)) i w) \<noteq> SR_OK)
            else dl = devlist env)
        \<and> sl_scan (status sdi) i ctx dl 0 0 = Some (j, dl ! j)
        \<and> j < length dl \<and> open_ok (dl ! j)
        \<and> descriptor (dl ! j) = Some (fw_vid (profile ctx), fw_pid (profile ctx))
        \<and> status (dev_insts w1 ! k) = SR_ST_ACTIVE
        \<and> hw_dev_close i w1 =
            (SR_OK,
             w\<lparr>dev_insts := (dev_insts w)[k := sdi\<lparr>status := SR_ST_INACTIVE\<rparr>],
               contexts := (contexts w)(p := ctx
                 \<lparr>usb := (usb ctx)
                    \<lparr>address := (if address (usb ctx) = 0xff then device_address (dl ! j)
                                 else address (usb ctx)),
                     devhdl := None\<rparr>,
                  cur_samplerate := (if cur_samplerate ctx = 0 then 200000
                                     else cur_samplerate ctx)\<rparr>),
               usb_log := usb_log w @ [Claim_interface (Some j)]
                 @ (if cur_samplerate ctx = 0
                    then [Bulk_out (Some j)
                            [if new_saleae_logic_firmware w then 0xd5 else 0x01,
                             if new_saleae_logic_firmware w then 0x4e else 0xef]]
                    else [])
                 @ [Release_interface j, Close_handle j]\<rparr>))"
proof -
  from hw_dev_open_ok [OF assms(2,1)] obtain k j dl where
    k: "sr_dev_inst_get (dev_insts w) i = Some k"
    and na: "status (dev_insts w ! k) \<noteq> SR_ST_ACTIVE"
    and src: "if 0 < fw_updated (contexts w (priv (dev_insts w ! k)))
          then \<exists>n < length (rounds env). dl = fst (rounds env ! n)
                 \<and> (\<forall>m < n. fst (sl_open_dev (fst (rounds env ! m)) i w) \<noteq> SR_OK)
          else dl = devlist env"
    and scan: "sl_scan (status (dev_insts w ! k)) i (contexts w (priv (dev_insts w ! k))) dl 0 0
           = Some (j, dl ! j)"
    and jl: "j < length dl" "open_ok (dl ! j)"
      "descriptor (dl ! j) = Some (fw_vid (profile (contexts w (priv (dev_insts w ! k)))),
                                      fw_pid (profile (contexts w (priv (dev_insts w ! k)))))"
    and w1: "w1 = (if cur_samplerate (contexts w (priv (dev_insts w ! k))) = 0
              then set_ctx (priv (dev_insts w ! k))
                  ((contexts (opened k j (device_address (dl ! j)) w) (priv (dev_insts w ! k)))
                     \<lparr>cur_samplerate := 200000\<rparr>)
                  (usb_do (Bulk_out (Some j)
                       [if new_saleae_logic_firmware w then 0xd5 else 0x01,
                        if new_saleae_logic_firmware w then 0x4e else 0xef])
                     (usb_do (Claim_interface (Some j))
                        (opened k j (device_address (dl ! j)) w)))
              else usb_do (Claim_interface (Some j)) (opened k j (device_address (dl ! j)) w))"
    by blast
  define a where "a = device_address (dl ! j)"
  have kl: "k < length (dev_insts w)" using sr_dev_inst_get_Some [OF k] by simp
  note of = opened_fields [OF kl, of j a]
  let ?p = "priv (dev_insts w ! k)"
  let ?ctx = "contexts w ?p"
  let ?bulk = "if cur_samplerate ?ctx = 0
      then [Bulk_out (Some j) [if new_saleae_logic_firmware w then 0xd5 else 0x01,
                               if new_saleae_logic_firmware w then 0x4e else 0xef]]
      else []"
  have d1: "dev_insts w1 = (dev_insts w)[k := (dev_insts w ! k)\<lparr>status := SR_ST_ACTIVE\<rparr>]"
    by (simp add: w1 a_def [symmetric] of)
  have k1: "sr_dev_inst_get (dev_insts w1) i = Some k"
    by (simp add: d1 sr_dev_inst_get_status k)
  have p1: "priv (dev_insts w1 ! k) = ?p" "status (dev_insts w1 ! k) = SR_ST_ACTIVE"
    using kl by (simp_all add: d1)
  have c1: "contexts w1 ?p = ?ctx
                \<lparr>usb := (usb ?ctx)
                     \<lparr>devhdl := Some j,
                      address := (if address (usb ?ctx) = 0xff then a else address (usb ?ctx))\<rparr>,
                 cur_samplerate :=
                   (if cur_samplerate ?ctx = 0 then 200000 else cur_samplerate ?ctx)\<rparr>"
    by (simp add: w1 a_def [symmetric] of)
  have c1': "\<forall>q. q \<noteq> ?p \<longrightarrow> contexts w1 q = contexts w q"
    by (simp add: w1 a_def [symmetric] of)
  have e1: "num_samples w1 = num_samples w" "empty_transfer_count w1 = empty_transfer_count w"
    "new_saleae_logic_firmware w1 = new_saleae_logic_firmware w" "sent w1 = sent w"
    by (simp_all add: w1 a_def [symmetric] of)
  have l1: "usb_log w1 = usb_log w @ [Claim_interface (Some j)] @ ?bulk"
    by (simp add: w1 a_def [symmetric] of)
  have close: "snd (hw_dev_close i w1) =
      (set_ctx ?p ((contexts w1 ?p)\<lparr>usb := (usb (contexts w1 ?p))\<lparr>devhdl := None\<rparr>\<rparr>)
         (usb_do (Close_handle j) (usb_do (Release_interface j) w1)))
        \<lparr>dev_insts := (dev_insts w1)[k := (dev_insts w1 ! k)\<lparr>status := SR_ST_INACTIVE\<rparr>]\<rparr>"
    "fst (hw_dev_close i w1) = SR_OK"
    by (simp_all add: hw_dev_close_def close_dev_def k1 p1 c1 Let_def)
  define final where "final =
     w\<lparr>dev_insts := (dev_insts w)[k := (dev_insts w ! k)\<lparr>status := SR_ST_INACTIVE\<rparr>],
       contexts := (contexts w)(?p := ?ctx
         \<lparr>usb := (usb ?ctx)
            \<lparr>address := (if address (usb ?ctx) = 0xff then a else address (usb ?ctx)),
             devhdl := None\<rparr>,
          cur_samplerate := (if cur_samplerate ?ctx = 0 then 200000 else cur_samplerate ?ctx)\<rparr>),
       usb_log := usb_log w @ [Claim_interface (Some j)] @ ?bulk
         @ [Release_interface j, Close_handle j]\<rparr>"
  have ctxs: "contexts (snd (hw_dev_close i w1)) = contexts final"
  proof
    fix q
    show "contexts (snd (hw_dev_close i w1)) q = contexts final q"
      using c1' by (cases "q = ?p") (simp_all add: close c1 final_def)
  qed
  have "snd (hw_dev_close i w1) = final"
  proof (rule world.equality)
    show "contexts (snd (hw_dev_close i w1)) = contexts final" by (rule ctxs)
    show "dev_insts (snd (hw_dev_close i w1)) = dev_insts final"
      using kl by (simp add: close d1 final_def)
    show "usb_log (snd (hw_dev_close i w1)) = usb_log final"
      by (simp add: close l1 final_def)
  qed (simp_all add: close e1 final_def)
  then have "hw_dev_close i w1 = (SR_OK, final)"
    using close(2) by (cases "hw_dev_close i w1") simp
  then show ?thesis
    using k na src scan jl p1(2) unfolding final_def a_def Let_def by blast
qed

text \<open>
  The theorem on the device that received its firmware in \<^verbatim>\<open>hw_init\<close>: it is found at
  position 1 of the bus, its address \<open>0xff\<close> becomes 2, its rate becomes 200 kHz, and the
  four calls of libusb are those of the open, the rate and the close.
\<close>

theorem C8_open_close_frame_witness:
  "\<exists>w1. hw_dev_open scenario_tunables renumerated_env 0 uploaded_world = Some (SR_OK, w1)
      \<and> status_at 0 w1 = SR_ST_ACTIVE
      \<and> hw_dev_close 0 w1 =
          (SR_OK,
           uploaded_world
             \<lparr>dev_insts := [\<lparr>index = 0, status = SR_ST_INACTIVE, priv = 0\<rparr>],
              contexts := (contexts uploaded_world)(0 := fresh_context
                 \<lparr>fw_updated := 5000, usb := \<lparr>bus = 1, address = 2, devhdl = None\<rparr>,
                  cur_samplerate := 200000\<rparr>),
              usb_log := [Claim_interface (Some 1), Bulk_out (Some 1) [0x01, 0xef],
                          Release_interface 1, Close_handle 1]\<rparr>)"
proof -
  have d: "0 < MAX_RENUM_DELAY scenario_tunables" by (simp add: scenario_tunables_def)
  have "\<exists>w1. hw_dev_open scenario_tunables renumerated_env 0 uploaded_world = Some (SR_OK, w1)"
    by (simp add: scenario_defs driver_defs legacy_200k)
  then obtain w1 where
    o: "hw_dev_open scenario_tunables renumerated_env 0 uploaded_world = Some (SR_OK, w1)"
    by blast
  have g: "sr_dev_inst_get (dev_insts uploaded_world) 0 = Some 0"
    by (simp add: uploaded_world_def fresh_world_def)
  from C8_open_close_frame [OF d o] g obtain j dl where
    src: "if 0 < fw_updated (contexts uploaded_world (priv (dev_insts uploaded_world ! 0)))
          then \<exists>n < length (rounds renumerated_env). dl = fst (rounds renumerated_env ! n)
                 \<and> (\<forall>m < n. fst (sl_open_dev (fst (rounds renumerated_env ! m)) 0 uploaded_world)
                       \<noteq> SR_OK)
          else dl = devlist renumerated_env"
    and scan: "sl_scan (status (dev_insts uploaded_world ! 0)) 0
           (contexts uploaded_world (priv (dev_insts uploaded_world ! 0))) dl 0 0
           = Some (j, dl ! j)"
    and act: "status (dev_insts w1 ! 0) = SR_ST_ACTIVE"
    and cl: "hw_dev_close 0 w1 =
            (SR_OK,
             uploaded_world\<lparr>dev_insts := (dev_insts uploaded_world)
                  [0 := (dev_insts uploaded_world ! 0)\<lparr>status := SR_ST_INACTIVE\<rparr>],
               contexts := (contexts uploaded_world)(priv (dev_insts uploaded_world ! 0) :=
                 (contexts uploaded_world (priv (dev_insts uploaded_world ! 0)))
                 \<lparr>usb := (usb (contexts uploaded_world (priv (dev_insts uploaded_world ! 0))))
                    \<lparr>address := (if address (usb (contexts uploaded_world
                                        (priv (dev_insts uploaded_world ! 0)))) = 0xff
                                 then device_address (dl ! j)
                                 else address (usb (contexts uploaded_world
                                        (priv (dev_insts uploaded_world ! 0))))),
                     devhdl := None\<rparr>,
                  cur_samplerate :=
                    (if cur_samplerate (contexts uploaded_world
                           (priv (dev_insts uploaded_world ! 0))) = 0 then 200000
                     else cur_samplerate (contexts uploaded_world
                           (priv (dev_insts uploaded_world ! 0))))\<rparr>),
               usb_log := usb_log uploaded_world @ [Claim_interface (Some j)]
                 @ (if cur_samplerate (contexts uploaded_world
                           (priv (dev_insts uploaded_world ! 0))) = 0
                    then [Bulk_out (Some j)
                            [if new_saleae_logic_firmware uploaded_world then 0xd5 else 0x01,
                             if new_saleae_logic_firmware uploaded_world then 0x4e else 0xef]]
                    else [])
                 @ [Release_interface j, Close_handle j]\<rparr>)"
    unfolding Let_def by auto
  have dl: "dl = bus_with_logic"
    using src by (simp add: uploaded_world_def fresh_world_def fresh_context_def
        renumerated_env_def)
  have j: "j = 1"
    using scan by (simp add: dl uploaded_world_def fresh_world_def fresh_context_def
        bus_with_logic_def supported_fx2_def)
  have "hw_dev_close 0 w1 =
          (SR_OK,
           uploaded_world
             \<lparr>dev_insts := [\<lparr>index = 0, status = SR_ST_INACTIVE, priv = 0\<rparr>],
              contexts := (contexts uploaded_world)(0 := fresh_context
                 \<lparr>fw_updated := 5000, usb := \<lparr>bus = 1, address = 2, devhdl = None\<rparr>,
                  cur_samplerate := 200000\<rparr>),
              usb_log := [Claim_interface (Some 1), Bulk_out (Some 1) [0x01, 0xef],
                          Release_interface 1, Close_handle 1]\<rparr>)"
    using cl by (simp add: j dl uploaded_world_def fresh_world_def fresh_context_def
        bus_with_logic_def)
  with o act show ?thesis by (auto simp: status_at_def)
qed

subsection \<open>C9: the kill switch is never reset\<close>

text \<open>
  Claim C9. \<^verbatim>\<open>num_samples\<close> and \<^verbatim>\<open>empty_transfer_count\<close> are static in \<^verbatim>\<open>receive_transfer\<close>
  (in the model: fields of the process, not of a device's context).
  \<^verbatim>\<open>hw_dev_acquisition_stop\<close> sets \<^verbatim>\<open>num_samples\<close> to \<open>-1\<close>, and no call of the driver resets
  it: after a stop, whatever calls follow (opening, closing and configuring devices,
  starting and stopping acquisitions, completions of transfers), the counter is still
  \<open>-1\<close>, the trace has no LOGIC packet that it did not have before, and every transfer that
  completes is freed at once, with nothing else done.
\<close>

theorem C9_kill_switch_is_permanent:
  "num_samples (snd (hw_dev_acquisition_stop i sd w)) = - 1 \<and>
   (\<forall>cs w1. run cfg cs (snd (hw_dev_acquisition_stop i sd w)) = Some w1 \<longrightarrow>
      num_samples w1 = - 1
      \<and> logic_packets (sent w1) = logic_packets (sent w)
      \<and> (\<forall>t. receive_transfer cfg (Some t) w1 = Some (usb_do Free_transfer w1)))"
proof (intro conjI allI impI)
  show "num_samples (snd (hw_dev_acquisition_stop i sd w)) = - 1" by simp
next
  fix cs w1 t
  assume r: "run cfg cs (snd (hw_dev_acquisition_stop i sd w)) = Some w1"
  have k: "num_samples (snd (hw_dev_acquisition_stop i sd w)) = - 1" by simp
  from killed_run [OF k r]
  show "num_samples w1 = - 1" "logic_packets (sent w1) = logic_packets (sent w)"
    "receive_transfer cfg (Some t) w1 = Some (usb_do Free_transfer w1)"
    by (simp_all add: killed_transfer_freed)
qed

text \<open>
  The theorem at a second acquisition started after a stop: its transfer of three bytes,
  which a fresh process would pass on as LOGIC, is freed, and so is the next.
\<close>

theorem C9_kill_switch_is_permanent_witness:
  "\<exists>w1. run scenario_tunables
           [Acquisition_start start_ok_env 0 0, Transfer_done (completed [1, 2, 3])]
           (snd (hw_dev_acquisition_stop 0 0 fresh_world)) = Some w1
      \<and> num_samples w1 = - 1
      \<and> logic_packets (sent w1) = []
      \<and> receive_transfer scenario_tunables (Some (completed [4, 5, 6])) w1
           = Some (usb_do Free_transfer w1)"
proof -
  have "run scenario_tunables
           [Acquisition_start start_ok_env 0 0, Transfer_done (completed [1, 2, 3])]
           (snd (hw_dev_acquisition_stop 0 0 fresh_world)) \<noteq> None"
    by (simp add: killed_transfer_freed hw_dev_acquisition_start_engine)
  then obtain w1 where r: "run scenario_tunables
           [Acquisition_start start_ok_env 0 0, Transfer_done (completed [1, 2, 3])]
           (snd (hw_dev_acquisition_stop 0 0 fresh_world)) = Some w1"
    by auto
  have l: "logic_packets (sent fresh_world) = []" by (simp add: fresh_world_def)
  from C9_kill_switch_is_permanent [of 0 0 fresh_world scenario_tunables] r
  have a: "num_samples w1 = - 1 \<and> logic_packets (sent w1) = logic_packets (sent fresh_world)
      \<and> (\<forall>t. receive_transfer scenario_tunables (Some t) w1 = Some (usb_do Free_transfer w1))"
    by blast
  from a l have "num_samples w1 = - 1" "logic_packets (sent w1) = []"
    "receive_transfer scenario_tunables (Some (completed [4, 5, 6])) w1
       = Some (usb_do Free_transfer w1)"
    by simp_all
  with r show ?thesis by blast
qed

subsection \<open>C10: the trigger arrays in \<^verbatim>\<open>configure_probes\<close>\<close>



end
